theory Spec2Isabelle
  imports Complex_Main "HOL-Library.Sublist" "HOL-Library.Multiset" "HOL-Library.Log_Nat"
begin

text \<open>
  A shallow embedding of the document structuring and hybrid retrieval functions of
  SecouristIA: the import script's structural parser (\<open>splitIntoPSEFiches\<close>,
  \<open>detectPSELevel\<close>, \<open>splitIntoChunks\<close>), the hybrid search of the chat endpoint and of the
  two fiche endpoints (\<open>reformulateQuery\<close>, \<open>searchDocuments\<close>, \<open>extractDocumentTitle\<close>), and
  the fiche view of the fiche-formatting endpoint (\<open>parseFiche\<close> and the deduplication by
  reference). The embedding service, the store and the generation service are parameters,
  and so is the case conversion of the JavaScript runtime. Numbers are IEEE 754 doubles.
\<close>

section \<open>JavaScript strings\<close>

text \<open>
  A JavaScript string is a sequence of UTF-16 code units; \<open>length\<close>, \<open>slice\<close>,
  \<open>indexOf\<close> and the regular expressions of the sources (none has the \<open>u\<close> flag) all
  count code units. A string is therefore a list of code units, each a natural number.
  The glyphs of the referentials: U+2460 (circled one) is 9312, U+2461 (circled two) is
  9313, e-acute is 233.
\<close>

type_synonym jstr = "nat list"

definition str :: "string \<Rightarrow> jstr" where
  "str s = map of_char s"

definition circled1 :: nat where
  "circled1 = 9312"

definition circled2 :: nat where
  "circled2 = 9313"

text \<open>
  The class \<open>\s\<close> of a regular expression, which is also the set \<open>trim\<close> strips:
  WhiteSpace and LineTerminator of ECMAScript.
\<close>

definition isWhiteSpace :: "nat \<Rightarrow> bool" where
  "isWhiteSpace c =
     (c = 9 \<or> c = 10 \<or> c = 11 \<or> c = 12 \<or> c = 13 \<or> c = 32 \<or> c = 160 \<or> c = 5760 \<or>
      (8192 \<le> c \<and> c \<le> 8202) \<or> c = 8232 \<or> c = 8233 \<or> c = 8239 \<or> c = 8287 \<or>
      c = 12288 \<or> c = 65279)"

text \<open>The characters \<open>.\<close> does not match: line feed, carriage return, U+2028, U+2029.\<close>

definition isLineTerminator :: "nat \<Rightarrow> bool" where
  "isLineTerminator c = (c = 10 \<or> c = 13 \<or> c = 8232 \<or> c = 8233)"

definition isDigit :: "nat \<Rightarrow> bool" where
  "isDigit c = (48 \<le> c \<and> c \<le> 57)"

definition isUpperAZ :: "nat \<Rightarrow> bool" where
  "isUpperAZ c = (65 \<le> c \<and> c \<le> 90)"

definition trim :: "jstr \<Rightarrow> jstr" where
  "trim s = rev (dropWhile isWhiteSpace (rev (dropWhile isWhiteSpace s)))"

fun startsWith :: "jstr \<Rightarrow> jstr \<Rightarrow> bool" where
  "startsWith s [] = True"
| "startsWith [] (p # ps) = False"
| "startsWith (c # s) (p # ps) = (c = p \<and> startsWith s ps)"

text \<open>\<open>s.includes(n)\<close>: the string \<open>n\<close> occurs in \<open>s\<close> at some offset.\<close>

fun str_includes :: "jstr \<Rightarrow> jstr \<Rightarrow> bool" where
  "str_includes [] n = (n = [])"
| "str_includes (c # s) n = (startsWith (c # s) n \<or> str_includes s n)"

text \<open>
  A literal of ASCII letters in a regular expression with the flag \<open>i\<close>: a character of
  the input matches a letter of the pattern when both have the same canonical form,
  which is the upper-case letter. No character outside ASCII is canonicalised to an ASCII
  letter (the expressions have no \<open>u\<close> flag).
\<close>

definition canonUnit :: "nat \<Rightarrow> nat" where
  "canonUnit c = (if 97 \<le> c \<and> c \<le> 122 then c - 32 else c)"

fun startsWithI :: "jstr \<Rightarrow> jstr \<Rightarrow> bool" where
  "startsWithI s [] = True"
| "startsWithI [] (p # ps) = False"
| "startsWithI (c # s) (p # ps) = (canonUnit c = canonUnit p \<and> startsWithI s ps)"

text \<open>
  The specification's reading of the source filter, a case-insensitive substring, for
  names and filters made of ASCII characters: \<open>n\<close> occurs in \<open>s\<close> at some offset up to the
  case of the letters. It is written from the specification's words, to be compared with
  what the code computes with \<open>toUpperCase\<close> and \<open>includes\<close>.
\<close>

fun includesIgnoringCase :: "jstr \<Rightarrow> jstr \<Rightarrow> bool" where
  "includesIgnoringCase [] n = (n = [])"
| "includesIgnoringCase (c # s) n = (startsWithI (c # s) n \<or> includesIgnoringCase s n)"

text \<open>
  \<open>toLowerCase\<close> and \<open>toUpperCase\<close> are built into the JavaScript runtime: they apply
  Unicode's default case conversion, whose table is that of the Unicode version the
  runtime ships (U+0152 becomes U+0153, U+0130 becomes two code units, and so on). The
  two functions are therefore fields of a record \<open>Runtime\<close> that every function calling
  them takes as an argument, and a property proved for every runtime holds whatever the
  table is.
\<close>

record Runtime =
  toLowerCase :: "jstr \<Rightarrow> jstr"
  toUpperCase :: "jstr \<Rightarrow> jstr"

text \<open>
  On the Basic Latin and Latin-1 Supplement blocks, the alphabet of the French
  referentials, the conversion is the same in every version of Unicode: a letter moves by
  32, and upper-casing turns sharp s into SS, y-diaeresis into U+0178 and the micro sign
  into U+039C. The circled digits of the level markers have no case. \<open>latin1Case\<close> says
  that a runtime converts the strings made of these code units in this way; it is all the
  worked examples need to know about the runtime.
\<close>

definition lowerUnit :: "nat \<Rightarrow> nat" where
  "lowerUnit c =
     (if (65 \<le> c \<and> c \<le> 90) \<or> (192 \<le> c \<and> c \<le> 222 \<and> c \<noteq> 215) then c + 32 else c)"

definition upperUnit :: "nat \<Rightarrow> jstr" where
  "upperUnit c =
     (if (97 \<le> c \<and> c \<le> 122) \<or> (224 \<le> c \<and> c \<le> 254 \<and> c \<noteq> 247) then [c - 32]
      else if c = 223 then [83, 83]
      else if c = 255 then [376]
      else if c = 181 then [924]
      else [c])"

definition plainUnit :: "nat \<Rightarrow> bool" where
  "plainUnit c = (c < 256 \<or> c = circled1 \<or> c = circled2)"

definition latin1Case :: "Runtime \<Rightarrow> bool" where
  "latin1Case rt =
     (\<forall>s. list_all plainUnit s \<longrightarrow>
        toLowerCase rt s = map lowerUnit s \<and> toUpperCase rt s = concat (map upperUnit s))"

text \<open>
  The conversion of the two blocks, extended to every string by leaving the other code
  units as they are. It stands for the runtime in the closed examples, all of whose
  strings are made of code units of the two blocks and of circled digits.
\<close>

definition runtimeLatin1 :: Runtime where
  "runtimeLatin1 =
     \<lparr> toLowerCase = map lowerUnit, toUpperCase = (\<lambda>s. concat (map upperUnit s)) \<rparr>"

text \<open>\<open>s.split("\n")[0]\<close> and \<open>s.split("\n").slice(1).join("\n")\<close>.\<close>

definition firstLine :: "jstr \<Rightarrow> jstr" where
  "firstLine s = takeWhile (\<lambda>c. c \<noteq> 10) s"

definition afterFirstLine :: "jstr \<Rightarrow> jstr" where
  "afterFirstLine s = drop 1 (dropWhile (\<lambda>c. c \<noteq> 10) s)"

text \<open>
  \<open>s.split(/\s+/)\<close>: the pieces between the maximal runs of white space; a run at the
  start or at the end leaves an empty piece there, and the empty string gives one empty
  piece.
\<close>

function splitWs :: "jstr \<Rightarrow> jstr list" where
  "splitWs [] = [[]]"
| "splitWs (c # s) =
     (if isWhiteSpace c then [] # splitWs (dropWhile isWhiteSpace s)
      else (case splitWs s of [] \<Rightarrow> [[c]] | w # ws \<Rightarrow> (c # w) # ws))"
  by pat_completeness auto
termination
  by (relation "measure length") (auto simp: length_dropWhile_le less_Suc_eq_le)

text \<open>
  \<open>s.replace(/X{n,}/g, rep)\<close> for a character class \<open>X\<close>: every maximal run of at least
  \<open>n\<close> characters of the class becomes \<open>rep\<close>; a shorter run stays (the greedy match
  takes the whole run, and no match starts inside a run that is too short).
\<close>

function replaceRuns :: "(nat \<Rightarrow> bool) \<Rightarrow> nat \<Rightarrow> jstr \<Rightarrow> jstr \<Rightarrow> jstr" where
  "replaceRuns P n rep [] = []"
| "replaceRuns P n rep (c # s) =
     (if P c
      then (if n \<le> Suc (length (takeWhile P s)) then rep else c # takeWhile P s) @
           replaceRuns P n rep (dropWhile P s)
      else c # replaceRuns P n rep s)"
  by pat_completeness auto
termination
  by (relation "measure (\<lambda>(P, n, rep, s). length s)")
     (auto simp: length_dropWhile_le less_Suc_eq_le)

section \<open>JavaScript numbers\<close>

text \<open>
  A JavaScript number is an IEEE 754 double (binary64). A finite double is a real number,
  and the model carries that real number; what makes it a double is that every decimal
  literal of the sources and every result of \<open>+\<close>, \<open>*\<close> and \<open>/\<close> is rounded to the nearest
  double, ties to the even significand (so \<open>0.7 * 0.4\<close> is \<open>0.27999999999999997\<close>, and
  \<open>0.7 + (4 / 5) * 0.25\<close> is below \<open>0.9\<close>). Comparison and \<open>Math.min\<close> are exact, and so
  is the sign of a difference. The doubles of one binade \<open>2^e \<le> |x| < 2^(e + 1)\<close> are the
  multiples of \<open>2^(e - 52)\<close>; below \<open>2^(-1022)\<close> they are the multiples of \<open>2^(-1074)\<close>.
  Infinities and NaN are left out: the quantities of this program are scores between 0
  and 1, counts, and quotients whose divisor is at least 1. A count, and one half, are
  doubles and are written as they are.
\<close>

text \<open>The exponent \<open>e\<close> of the binade of a real number other than zero.\<close>

definition expo :: "real \<Rightarrow> int" where
  "expo x =
     (if 1 \<le> \<bar>x\<bar> then bitlen \<lfloor>\<bar>x\<bar>\<rfloor> - 1 else - bitlen (\<lceil>1 / \<bar>x\<bar>\<rceil> - 1))"

text \<open>The nearest integer, a tie going to the even one.\<close>

definition roundEven :: "real \<Rightarrow> int" where
  "roundEven q =
     (let f = \<lfloor>q\<rfloor> in
      if q - of_int f < 1 / 2 then f
      else if 1 / 2 < q - of_int f then f + 1
      else if even f then f else f + 1)"

text \<open>The spacing of the doubles around \<open>x\<close>, and the double nearest to \<open>x\<close>.\<close>

definition ulp :: "real \<Rightarrow> real" where
  "ulp x = 2 powi (max (expo x) (- 1022) - 52)"

definition dbl :: "real \<Rightarrow> real" where
  "dbl x = of_int (roundEven (x / ulp x)) * ulp x"

text \<open>\<open>a + b\<close>, \<open>a * b\<close> and \<open>a / b\<close> on doubles.\<close>

definition fadd :: "real \<Rightarrow> real \<Rightarrow> real" where
  "fadd a b = dbl (a + b)"

definition fmul :: "real \<Rightarrow> real \<Rightarrow> real" where
  "fmul a b = dbl (a * b)"

definition fdiv :: "real \<Rightarrow> real \<Rightarrow> real" where
  "fdiv a b = dbl (a / b)"

section \<open>Search results and the fiche view (the fiche-formatting endpoint)\<close>

text \<open>\<open>DocumentMatch\<close>: a record of the store matched by a query, with its score.\<close>

record DocumentMatch =
  doc_id :: int
  content :: jstr
  source :: jstr
  similarity :: real
  fiche_ref :: "jstr option"

datatype FicheType = AC | FT | PR | unknown

record ParsedFiche =
  ref :: jstr
  ftype :: FicheType
  typeName :: jstr
  title :: jstr
  date :: jstr
  level :: jstr
  fcontent :: jstr
  fsource :: jstr

text \<open>
  The header of a fiche, \<open>/\[([^\]]+)\]\s*(PSE[\<dots>]?|PSC[\<dots>]?|SST)?\s*(.+)?/i\<close>, searched in
  the first line. The match starts at the leftmost \<open>[\<close> that is followed by at least one
  character other than \<open>]\<close> and then a \<open>]\<close>; everything after the bracket is optional,
  so the greedy choices are never undone. The result is the three groups.
\<close>

definition levelMarker :: "jstr \<Rightarrow> jstr option" where
  "levelMarker s =
     (if startsWithI s (str ''PSE'')
      then Some (take (if take 1 (drop 3 s) = [circled1] \<or> take 1 (drop 3 s) = [circled2]
                       then 4 else 3) s)
      else if startsWithI s (str ''PSC'')
      then Some (take (if take 1 (drop 3 s) = [circled1] then 4 else 3) s)
      else if startsWithI s (str ''SST'') then Some (take 3 s)
      else None)"

definition afterBracket :: "jstr \<Rightarrow> jstr option \<times> jstr option" where
  "afterBracket s =
     (let s1 = dropWhile isWhiteSpace s;
          g2 = levelMarker s1;
          s2 = dropWhile isWhiteSpace (drop (case g2 of None \<Rightarrow> 0 | Some m \<Rightarrow> length m) s1);
          g3 = takeWhile (\<lambda>c. \<not> isLineTerminator c) s2
      in (g2, if g3 = [] then None else Some g3))"

fun headerMatch :: "jstr \<Rightarrow> (jstr \<times> jstr option \<times> jstr option) option" where
  "headerMatch [] = None"
| "headerMatch (c # s) =
     (let g1 = takeWhile (\<lambda>x. x \<noteq> 93) s in
      if c = 91 \<and> g1 \<noteq> [] \<and> length g1 < length s
      then Some (g1, afterBracket (drop (Suc (length g1)) s))
      else headerMatch s)"

text \<open>
  \<open>/(\d{2}[A-Z]{2}\d{2})\s*\/?\s*(\d{2}-\d{4})?/\<close> searched in the bracket's text: the
  reference and, when it follows, the date.
\<close>

definition isRef6 :: "jstr \<Rightarrow> bool" where
  "isRef6 s =
     (length s = 6 \<and> list_all isDigit (take 2 s) \<and> list_all isUpperAZ (take 2 (drop 2 s)) \<and>
      list_all isDigit (drop 4 s))"

definition dateAt :: "jstr \<Rightarrow> jstr option" where
  "dateAt s =
     (let d = take 7 s in
      if length d = 7 \<and> list_all isDigit (take 2 d) \<and> d ! 2 = 45 \<and> list_all isDigit (drop 3 d)
      then Some d else None)"

fun refMatch :: "jstr \<Rightarrow> (jstr \<times> jstr option) option" where
  "refMatch [] = None"
| "refMatch (c # s) =
     (if isRef6 (take 6 (c # s))
      then (let r1 = dropWhile isWhiteSpace (drop 6 (c # s));
                r2 = (if take 1 r1 = [47] then drop 1 r1 else r1)
            in Some (take 6 (c # s), dateAt (dropWhile isWhiteSpace r2)))
      else refMatch s)"

text \<open>
  The title's cleaning: \<open>replace(/_+/g, " ")\<close>, then \<open>replace(/\s+\d+\s*$/, "")\<close> (a page
  number at the end: the leftmost offset from which the rest is white space, digits and
  white space again), then \<open>replace(/\s+/g, " ")\<close> and \<open>trim\<close>.
\<close>

definition isPageTail :: "jstr \<Rightarrow> bool" where
  "isPageTail s =
     (let a = dropWhile isWhiteSpace s; b = dropWhile isDigit a
      in length a < length s \<and> length b < length a \<and> dropWhile isWhiteSpace b = [])"

fun dropPageTail :: "jstr \<Rightarrow> jstr" where
  "dropPageTail [] = []"
| "dropPageTail (c # s) = (if isPageTail (c # s) then [] else c # dropPageTail s)"

definition cleanTitle :: "jstr \<Rightarrow> jstr" where
  "cleanTitle t =
     trim (replaceRuns isWhiteSpace 1 [32]
       (dropPageTail (replaceRuns (\<lambda>c. c = 95) 1 [32] t)))"

text \<open>The type of the fiche: \<open>/\d{2}([A-Z]{2})\d{2}/\<close> searched in the reference.\<close>

fun typeMatch :: "jstr \<Rightarrow> jstr option" where
  "typeMatch [] = None"
| "typeMatch (c # s) =
     (if isRef6 (take 6 (c # s)) then Some (take 2 (drop 2 (c # s))) else typeMatch s)"

definition ficheTypeOf :: "jstr \<Rightarrow> FicheType \<times> jstr" where
  "ficheTypeOf r =
     (case typeMatch r of
        None \<Rightarrow> (unknown, str ''Document'')
      | Some code \<Rightarrow>
          if code = str ''AC'' then (AC, str ''Connaissance'')
          else if code = str ''FT'' then (FT, str ''Fiche Technique'')
          else if code = str ''PR'' then (PR, str ''Proc'' @ [233] @ str ''dure'')
          else (unknown, str ''Document''))"

definition parseFiche :: "DocumentMatch \<Rightarrow> ParsedFiche" where
  "parseFiche doc =
     (let hm = headerMatch (firstLine (content doc));
          rm = (case hm of None \<Rightarrow> None | Some (refPart, g2, g3) \<Rightarrow> refMatch refPart);
          stored = (case fiche_ref doc of None \<Rightarrow> [] | Some r \<Rightarrow> r);
          r = (case rm of None \<Rightarrow> stored | Some (r1, d) \<Rightarrow> r1);
          dt = (case rm of None \<Rightarrow> [] | Some (r1, d) \<Rightarrow> (case d of None \<Rightarrow> [] | Some x \<Rightarrow> x));
          lv = (case hm of None \<Rightarrow> [] | Some (refPart, g2, g3) \<Rightarrow>
                 (case g2 of None \<Rightarrow> [] | Some m \<Rightarrow> m));
          t0 = (case hm of None \<Rightarrow> [] | Some (refPart, g2, g3) \<Rightarrow>
                 (case g3 of None \<Rightarrow> [] | Some t \<Rightarrow> trim t));
          t1 = cleanTitle t0
      in \<lparr> ref = r,
           ftype = fst (ficheTypeOf r),
           typeName = snd (ficheTypeOf r),
           title = (if t1 = [] then str ''Document'' else t1),
           date = dt,
           level = map (\<lambda>c. if c = circled1 then 49 else if c = circled2 then 50 else c) lv,
           fcontent = trim (afterFirstLine (content doc)),
           fsource = source doc \<rparr>)"

text \<open>
  The endpoint's deduplication: a filter over the parsed fiches with the set of the
  references seen so far. A fiche whose reference is the empty string (falsy) neither
  tests the set nor enters it.
\<close>

fun dedupeByRef :: "jstr set \<Rightarrow> ParsedFiche list \<Rightarrow> ParsedFiche list" where
  "dedupeByRef seenRefs [] = []"
| "dedupeByRef seenRefs (f # fs) =
     (if ref f \<noteq> [] \<and> ref f \<in> seenRefs then dedupeByRef seenRefs fs
      else f # dedupeByRef (if ref f \<noteq> [] then insert (ref f) seenRefs else seenRefs) fs)"

definition uniqueFiches :: "ParsedFiche list \<Rightarrow> ParsedFiche list" where
  "uniqueFiches fiches = dedupeByRef {} fiches"

section \<open>The external collaborators of retrieval\<close>

text \<open>
  The embedding service, the store and the generation service are reached through
  process-wide clients. Here they are one record of functions, so that every outcome of a
  call is a value: \<open>Inl\<close> is a call that throws (a rejected promise), \<open>Inr\<close> is the value
  it returns. The store's client answers with a pair of \<open>data\<close> and \<open>error\<close>, either of
  which may be null.
\<close>

datatype exn = Thrown jstr

datatype 'a response = Response (resp_data: "'a option") (resp_error: "jstr option")

record StoreRow =
  row_id :: int
  row_content :: jstr
  row_source :: jstr
  row_fiche_ref :: "jstr option"

text \<open>
  A query on the table \<open>documents\<close> as the query builder holds it: the \<open>ilike\<close> filters on
  \<open>content\<close> (all must hold), the \<open>ilike\<close> filter on \<open>source\<close>, the alternatives of \<open>or\<close>, and
  the limit.
\<close>

record TableQuery =
  ilikeContent :: "jstr list"
  ilikeSource :: "jstr option"
  orContent :: "jstr list"
  rowLimit :: nat

datatype ContentBlock = TextBlock jstr | OtherBlock

record Services =
  generateEmbedding :: "jstr \<Rightarrow> exn + real list"
  match_documents :: "real list \<Rightarrow> real \<Rightarrow> nat \<Rightarrow> exn + DocumentMatch list response"
  select_documents :: "TableQuery \<Rightarrow> exn + StoreRow list response"
  messages_create :: "jstr \<Rightarrow> exn + ContentBlock list"

definition bindE :: "'e + 'a \<Rightarrow> ('a \<Rightarrow> 'e + 'b) \<Rightarrow> 'e + 'b" where
  "bindE m f = (case m of Inl e \<Rightarrow> Inl e | Inr x \<Rightarrow> f x)"

text \<open>\<open>{ ...doc, similarity: s }\<close>\<close>

definition withSimilarity :: "StoreRow \<Rightarrow> real \<Rightarrow> DocumentMatch" where
  "withSimilarity row s =
     \<lparr> doc_id = row_id row, content = row_content row, source = row_source row,
       similarity = s, fiche_ref = row_fiche_ref row \<rparr>"

text \<open>\<open>if (sourceFilter)\<close>: an absent filter and the empty string are both falsy.\<close>

definition truthy :: "jstr option \<Rightarrow> jstr option" where
  "truthy f = (case f of None \<Rightarrow> None | Some s \<Rightarrow> if s = [] then None else Some s)"

section \<open>Query reformulation\<close>

text \<open>
  \<open>reformulateQuery\<close>: the whole body is in a \<open>try\<close>. A call that throws, and an answer with
  no content block (reading \<open>content[0].type\<close> throws), give the question back; so does a
  first block that is not text.
\<close>

definition reformulateQuery :: "Services \<Rightarrow> jstr \<Rightarrow> jstr" where
  "reformulateQuery sv question =
     (case messages_create sv question of
        Inl e \<Rightarrow> question
      | Inr blocks \<Rightarrow>
          (case blocks of
             [] \<Rightarrow> question
           | TextBlock t # rest \<Rightarrow> trim t
           | OtherBlock # rest \<Rightarrow> question))"

section \<open>Hybrid search: the parts the variants share\<close>

text \<open>\<open>s.toLowerCase().split(/\s+/).filter(w => w.length > n)\<close>\<close>

definition wordsLongerThan :: "Runtime \<Rightarrow> nat \<Rightarrow> jstr \<Rightarrow> jstr list" where
  "wordsLongerThan rt n s = filter (\<lambda>w. n < length w) (splitWs (toLowerCase rt s))"

text \<open>\<open>[...new Set(xs)]\<close>: the first occurrence of every element, in order.\<close>

fun setOrder :: "jstr list \<Rightarrow> jstr list \<Rightarrow> jstr list" where
  "setOrder seen [] = []"
| "setOrder seen (w # ws) =
     (if w \<in> set seen then setOrder seen ws else w # setOrder (w # seen) ws)"

definition allKeywordsOf :: "Runtime \<Rightarrow> jstr \<Rightarrow> jstr \<Rightarrow> jstr list" where
  "allKeywordsOf rt query originalQuery =
     setOrder [] (wordsLongerThan rt 2 query @ wordsLongerThan rt 2 originalQuery)"

text \<open>
  The vector pass: the embedding of the technical query, then the store's
  \<open>match_documents\<close>. An error the store reports is logged and nothing else; the rows are
  \<open>vectorResults || []\<close>.
\<close>

definition vectorResults :: "Services \<Rightarrow> real \<Rightarrow> nat \<Rightarrow> jstr \<Rightarrow> exn + DocumentMatch list" where
  "vectorResults sv match_threshold match_count query =
     bindE (generateEmbedding sv query) (\<lambda>embedding.
     bindE (match_documents sv embedding match_threshold match_count) (\<lambda>resp.
       Inr (case resp_data resp of None \<Rightarrow> [] | Some rows \<Rightarrow> rows)))"

text \<open>The deduplication loop: \<open>seen\<close> is the set of the identities pushed so far.\<close>

fun combineResults :: "int set \<Rightarrow> DocumentMatch list \<Rightarrow> DocumentMatch list" where
  "combineResults seen [] = []"
| "combineResults seen (doc # rest) =
     (if doc_id doc \<in> seen then combineResults seen rest
      else doc # combineResults (insert (doc_id doc) seen) rest)"

text \<open>\<open>doc.source.toUpperCase().includes(sourceFilter.toUpperCase())\<close>\<close>

definition sourceMatches :: "Runtime \<Rightarrow> jstr \<Rightarrow> DocumentMatch \<Rightarrow> bool" where
  "sourceMatches rt sourceFilter doc =
     str_includes (toUpperCase rt (source doc)) (toUpperCase rt sourceFilter)"

definition filterBySource ::
    "Runtime \<Rightarrow> jstr option \<Rightarrow> DocumentMatch list \<Rightarrow> DocumentMatch list" where
  "filterBySource rt sourceFilter docs =
     (case truthy sourceFilter of
        None \<Rightarrow> docs
      | Some f \<Rightarrow> filter (sourceMatches rt f) docs)"

text \<open>
  \<open>sort((a, b) => b.similarity - a.similarity)\<close>: the sort of an array is stable, and the
  comparator orders by decreasing similarity (the rounded difference of two doubles has
  the sign of their difference).
\<close>

definition sortBySimilarity :: "DocumentMatch list \<Rightarrow> DocumentMatch list" where
  "sortBySimilarity docs = sort_key (\<lambda>d. - similarity d) docs"

section \<open>Hybrid search of the chat endpoint (src/app/api/chat/route.ts)\<close>

definition stopWords_chat :: "jstr list" where
  "stopWords_chat =
     map str [''quoi'', ''que'', ''faire'', ''comment'', ''quel'', ''quelle'', ''quels'',
       ''quelles'', ''est'', ''sont'', ''cas'', ''pour'', ''dans'', ''avec'', ''sans'',
       ''lors'', ''une'', ''qui'', ''les'', ''des'', ''aux'']"

definition keyWords_chat :: "Runtime \<Rightarrow> jstr \<Rightarrow> jstr list" where
  "keyWords_chat rt originalQuery =
     filter (\<lambda>w. 2 < length w \<and> w \<notin> set stopWords_chat)
       (splitWs (toLowerCase rt originalQuery))"

text \<open>The phrase \<open>en presence\<close> (its second \<open>e\<close> with an acute accent), the start of a protocol.\<close>

definition enPresence :: jstr where
  "enPresence = str ''en pr'' @ [233] @ str ''sence''"

text \<open>\<open>let score = 0.85; if (...) score += 0.12; ... Math.min(score, 0.99)\<close>\<close>

definition exactScore_chat :: "Runtime \<Rightarrow> StoreRow \<Rightarrow> DocumentMatch" where
  "exactScore_chat rt doc =
     (let contentLower = toLowerCase rt (row_content doc);
          score = (if str_includes contentLower enPresence
                   then fadd (dbl 0.85) (dbl 0.12) else dbl 0.85)
      in withSimilarity doc (min score (dbl 0.99)))"

definition exactPhraseResults_chat ::
    "Runtime \<Rightarrow> Services \<Rightarrow> jstr \<Rightarrow> jstr option \<Rightarrow> exn + DocumentMatch list" where
  "exactPhraseResults_chat rt sv originalQuery sourceFilter =
     (let keyWords = keyWords_chat rt originalQuery in
      if 2 \<le> length keyWords
      then bindE (select_documents sv
                    \<lparr> ilikeContent = take 3 keyWords, ilikeSource = truthy sourceFilter,
                      orContent = [], rowLimit = 15 \<rparr>) (\<lambda>resp.
             Inr (case resp_data resp of
                    None \<Rightarrow> []
                  | Some exactData \<Rightarrow>
                      if resp_error resp = None then map (exactScore_chat rt) exactData
                      else []))
      else Inr [])"

text \<open>
  \<open>0.4 + (matchCount / Math.max(allKeywords.length, 1)) * 0.4\<close>, then
  \<open>Math.min(score, 0.8)\<close>. The two counts are integers, which are doubles.
\<close>

definition textScore_chat :: "Runtime \<Rightarrow> jstr list \<Rightarrow> StoreRow \<Rightarrow> DocumentMatch" where
  "textScore_chat rt allKeywords doc =
     (let contentLower = toLowerCase rt (row_content doc);
          matchCount = length (filter (\<lambda>k. str_includes contentLower k) allKeywords);
          score = fadd (dbl 0.4)
                    (fmul (fdiv (real matchCount) (real (max (length allKeywords) 1)))
                       (dbl 0.4))
      in withSimilarity doc (min score (dbl 0.8)))"

definition textResults_chat ::
    "Runtime \<Rightarrow> Services \<Rightarrow> jstr \<Rightarrow> jstr \<Rightarrow> jstr option \<Rightarrow> exn + DocumentMatch list" where
  "textResults_chat rt sv query originalQuery sourceFilter =
     (let allKeywords = allKeywordsOf rt query originalQuery;
          searchTerms = filter (\<lambda>k. 3 < length k) allKeywords in
      if searchTerms \<noteq> []
      then bindE (select_documents sv
                    \<lparr> ilikeContent = [], ilikeSource = truthy sourceFilter,
                      orContent = searchTerms, rowLimit = 20 \<rparr>) (\<lambda>resp.
             Inr (case resp_data resp of
                    None \<Rightarrow> []
                  | Some textData \<Rightarrow>
                      if resp_error resp = None
                      then map (textScore_chat rt allKeywords) textData
                      else []))
      else Inr [])"

text \<open>
  The body of \<open>searchDocuments\<close>, in the order of its awaits: vector pass, exact-phrase
  pass, text pass; then the merge (exact phrase first), the deduplication, the source
  filter, the sort and the cut at 8.
\<close>

definition finish_chat ::
    "Runtime \<Rightarrow> jstr option \<Rightarrow> DocumentMatch list \<Rightarrow> DocumentMatch list" where
  "finish_chat rt sourceFilter allResults =
     take 8 (sortBySimilarity (filterBySource rt sourceFilter (combineResults {} allResults)))"

definition searchBody_chat ::
    "Runtime \<Rightarrow> Services \<Rightarrow> jstr \<Rightarrow> jstr \<Rightarrow> jstr option \<Rightarrow> exn + DocumentMatch list" where
  "searchBody_chat rt sv query originalQuery sourceFilter =
     bindE (vectorResults sv (dbl 0.15) 15 query) (\<lambda>vectorRes.
     bindE (exactPhraseResults_chat rt sv originalQuery sourceFilter) (\<lambda>exactPhraseRes.
     bindE (textResults_chat rt sv query originalQuery sourceFilter) (\<lambda>textRes.
       Inr (finish_chat rt sourceFilter (exactPhraseRes @ vectorRes @ textRes)))))"

text \<open>\<open>try { ... } catch (err) { return []; }\<close>\<close>

definition searchDocuments_chat ::
    "Runtime \<Rightarrow> Services \<Rightarrow> jstr \<Rightarrow> jstr \<Rightarrow> jstr option \<Rightarrow> DocumentMatch list" where
  "searchDocuments_chat rt sv query originalQuery sourceFilter =
     (case searchBody_chat rt sv query originalQuery sourceFilter of
        Inl err \<Rightarrow> []
      | Inr combinedResults \<Rightarrow> combinedResults)"

section \<open>Hybrid search of the fiche endpoints (two variants, with relevance gating)\<close>

text \<open>
  The two fiche endpoints have the same \<open>searchDocuments\<close> up to five constants: the
  threshold and the count of the vector pass, the base score and the bonus of the lexical
  pass, and the number of results kept.
\<close>

record SearchConfig =
  matchThreshold :: real
  matchCount :: nat
  baseScore :: real
  bonusScore :: real
  topK :: nat

definition config_search :: SearchConfig where
  "config_search =
     \<lparr> matchThreshold = dbl 0.18, matchCount = 12, baseScore = dbl 0.75,
       bonusScore = dbl 0.2, topK = 6 \<rparr>"

definition config_fiches :: SearchConfig where
  "config_fiches =
     \<lparr> matchThreshold = dbl 0.20, matchCount = 10, baseScore = dbl 0.7,
       bonusScore = dbl 0.25, topK = 5 \<rparr>"

definition stopWords :: "jstr list" where
  "stopWords =
     map str [''quoi'', ''que'', ''faire'', ''comment'', ''quel'', ''quelle'', ''est'',
       ''sont'', ''cas'', ''pour'', ''dans'', ''avec'', ''sans'', ''lors'', ''une'', ''qui'',
       ''les'', ''des'', ''aux'', ''tenir'', ''face'', ''conduite'']"

definition keyWords :: "Runtime \<Rightarrow> jstr \<Rightarrow> jstr list" where
  "keyWords rt originalQuery =
     filter (\<lambda>w. 3 < length w \<and> w \<notin> set stopWords)
       (splitWs (toLowerCase rt originalQuery))"

text \<open>
  \<open>base + (matchCount / keyWords.length) * bonus\<close>: the quotient is rounded, then the
  product, then the sum.
\<close>

definition exactScore ::
    "SearchConfig \<Rightarrow> Runtime \<Rightarrow> jstr list \<Rightarrow> StoreRow \<Rightarrow> DocumentMatch" where
  "exactScore cfg rt kws doc =
     (let contentLower = toLowerCase rt (row_content doc);
          matchCount = length (filter (\<lambda>k. str_includes contentLower k) kws)
      in withSimilarity doc
           (fadd (baseScore cfg)
              (fmul (fdiv (real matchCount) (real (length kws))) (bonusScore cfg))))"

definition exactResults ::
    "SearchConfig \<Rightarrow> Runtime \<Rightarrow> Services \<Rightarrow> jstr \<Rightarrow> jstr option \<Rightarrow>
       exn + DocumentMatch list" where
  "exactResults cfg rt sv originalQuery sourceFilter =
     (let kws = keyWords rt originalQuery in
      if 1 \<le> length kws
      then bindE (select_documents sv
                    \<lparr> ilikeContent = take 2 kws, ilikeSource = truthy sourceFilter,
                      orContent = [], rowLimit = 10 \<rparr>) (\<lambda>resp.
             Inr (case resp_data resp of
                    None \<Rightarrow> []
                  | Some exactData \<Rightarrow> map (exactScore cfg rt kws) exactData))
      else Inr [])"

text \<open>
  \<open>extractDocumentTitle\<close>: \<open>/pse[\<dots>]?\s+(.+)/i\<close> searched in the lower-cased first line.
  At an offset where \<open>pse\<close> and the optional glyph match, the white space that follows
  must not be empty; the title is what follows it up to a line terminator. When the
  white space runs to the end of the line, the match gives its last character that is
  no line terminator (not the first of the run) to the group, and fails at this offset if
  there is none. Without a match the title is the whole line.
\<close>

definition titleAt :: "jstr \<Rightarrow> jstr option" where
  "titleAt s =
     (if startsWithI s (str ''pse'')
      then (let a = drop 3 s;
                b = (if take 1 a = [circled1] \<or> take 1 a = [circled2] then drop 1 a else a);
                ws = takeWhile isWhiteSpace b;
                rest = dropWhile isWhiteSpace b;
                back = filter (\<lambda>c. \<not> isLineTerminator c) (drop 1 ws)
            in if ws = [] then None
               else if rest \<noteq> [] then Some (takeWhile (\<lambda>c. \<not> isLineTerminator c) rest)
               else if back \<noteq> [] then Some [last back]
               else None)
      else None)"

fun titleMatch :: "jstr \<Rightarrow> jstr option" where
  "titleMatch [] = None"
| "titleMatch (c # s) =
     (case titleAt (c # s) of Some t \<Rightarrow> Some t | None \<Rightarrow> titleMatch s)"

definition extractDocumentTitle :: "Runtime \<Rightarrow> jstr \<Rightarrow> jstr" where
  "extractDocumentTitle rt cont =
     (let line = toLowerCase rt (firstLine cont) in
      case titleMatch line of Some t \<Rightarrow> trim t | None \<Rightarrow> line)"

definition relevanceKeywords :: "Runtime \<Rightarrow> jstr \<Rightarrow> jstr list" where
  "relevanceKeywords rt originalQuery = wordsLongerThan rt 4 originalQuery"

definition isOnTopic :: "Runtime \<Rightarrow> jstr list \<Rightarrow> DocumentMatch \<Rightarrow> bool" where
  "isOnTopic rt rks doc =
     list_ex (\<lambda>k. str_includes (extractDocumentTitle rt (content doc)) k) rks"

text \<open>The penalty of the loop: \<open>if (!isOnTopic && doc.similarity < 0.9) doc.similarity *= 0.4\<close>\<close>

definition gate :: "Runtime \<Rightarrow> jstr list \<Rightarrow> DocumentMatch \<Rightarrow> DocumentMatch" where
  "gate rt rks doc =
     (if \<not> isOnTopic rt rks doc \<and> similarity doc < dbl 0.9
      then doc\<lparr>similarity := fmul (similarity doc) (dbl 0.4)\<rparr> else doc)"

fun combineGated ::
    "Runtime \<Rightarrow> jstr list \<Rightarrow> int set \<Rightarrow> DocumentMatch list \<Rightarrow> DocumentMatch list" where
  "combineGated rt rks seen [] = []"
| "combineGated rt rks seen (doc # rest) =
     (if doc_id doc \<in> seen then combineGated rt rks seen rest
      else gate rt rks doc # combineGated rt rks (insert (doc_id doc) seen) rest)"

definition finish_gated ::
    "SearchConfig \<Rightarrow> Runtime \<Rightarrow> jstr \<Rightarrow> jstr option \<Rightarrow> DocumentMatch list \<Rightarrow>
       DocumentMatch list" where
  "finish_gated cfg rt originalQuery sourceFilter allResults =
     take (topK cfg) (sortBySimilarity (filterBySource rt sourceFilter
       (combineGated rt (relevanceKeywords rt originalQuery) {} allResults)))"

definition searchBody_gated ::
    "SearchConfig \<Rightarrow> Runtime \<Rightarrow> Services \<Rightarrow> jstr \<Rightarrow> jstr \<Rightarrow> jstr option \<Rightarrow>
       exn + DocumentMatch list" where
  "searchBody_gated cfg rt sv query originalQuery sourceFilter =
     bindE (vectorResults sv (matchThreshold cfg) (matchCount cfg) query) (\<lambda>vectorRes.
     bindE (exactResults cfg rt sv originalQuery sourceFilter) (\<lambda>exactRes.
       Inr (finish_gated cfg rt originalQuery sourceFilter (exactRes @ vectorRes))))"

definition searchDocuments_gated ::
    "SearchConfig \<Rightarrow> Runtime \<Rightarrow> Services \<Rightarrow> jstr \<Rightarrow> jstr \<Rightarrow> jstr option \<Rightarrow>
       DocumentMatch list" where
  "searchDocuments_gated cfg rt sv query originalQuery sourceFilter =
     (case searchBody_gated cfg rt sv query originalQuery sourceFilter of
        Inl err \<Rightarrow> []
      | Inr combinedResults \<Rightarrow> combinedResults)"

section \<open>The structural parser of the import script\<close>

text \<open>\<open>text.replace(/\r\n/g, "\n")\<close>\<close>

fun replaceCRLF :: "jstr \<Rightarrow> jstr" where
  "replaceCRLF [] = []"
| "replaceCRLF [c] = [c]"
| "replaceCRLF (a # b # s) =
     (if a = 13 \<and> b = 10 then 10 # replaceCRLF s else a # replaceCRLF (b # s))"

text \<open>\<open>s.slice(a, b)\<close> for offsets that are not negative.\<close>

definition slice :: "jstr \<Rightarrow> nat \<Rightarrow> nat \<Rightarrow> jstr" where
  "slice s a b = take (b - a) (drop a s)"

subsection \<open>Fiches\<close>

record PSEFiche =
  content_of :: jstr
  chapterCode :: jstr
  chapterName :: jstr
  ficheType :: jstr
  ficheTypeName :: jstr
  ficheRef :: jstr
  ficheNumber :: jstr
  updateDate :: jstr
  pseLevel :: "nat option"

text \<open>The groups of a match of the header pattern.\<close>

record HeaderGroups =
  g_chapter :: jstr
  g_ficheType :: jstr
  g_ficheNumber :: jstr
  g_month :: jstr
  g_year :: jstr

text \<open>
  \<open>PSE_FICHE_PATTERN\<close>, \<open>/\[(\d{2})(AC|PR|FT)(\d+)\s*\/\s*(\d{2})-(\d{4})\]/g\<close>, matched at
  the head of a string: the length of the match and its groups. The digits of the
  number, the white space and the slash are disjoint classes, so the greedy repetitions
  take their whole runs and nothing is undone.
\<close>

definition headerAt :: "jstr \<Rightarrow> (nat \<times> HeaderGroups) option" where
  "headerAt s =
     (let ch = take 2 (drop 1 s); ty = take 2 (drop 3 s);
          num = takeWhile isDigit (drop 5 s);
          r1 = dropWhile isWhiteSpace (drop (5 + length num) s);
          r2 = dropWhile isWhiteSpace (drop 1 r1);
          mm = take 2 r2; yyyy = take 4 (drop 3 r2)
      in if take 1 s = [91] \<and> length ch = 2 \<and> list_all isDigit ch \<and>
            (ty = str ''AC'' \<or> ty = str ''PR'' \<or> ty = str ''FT'') \<and>
            num \<noteq> [] \<and> take 1 r1 = [47] \<and>
            length mm = 2 \<and> list_all isDigit mm \<and> take 1 (drop 2 r2) = [45] \<and>
            length yyyy = 4 \<and> list_all isDigit yyyy \<and> take 1 (drop 7 r2) = [93]
         then Some (length s - length (drop 8 r2),
                \<lparr> g_chapter = ch, g_ficheType = ty, g_ficheNumber = num,
                  g_month = mm, g_year = yyyy \<rparr>)
         else None)"

text \<open>
  The loop \<open>while ((match = regex.exec(cleanedText)) !== null)\<close>: the matches from left to
  right, each with its offset; after a match the search goes on at its end. The first
  argument is the offset of the string still to be searched.
\<close>

function findHeaders :: "nat \<Rightarrow> jstr \<Rightarrow> (nat \<times> HeaderGroups) list" where
  "findHeaders i [] = []"
| "findHeaders i (c # s) =
     (case headerAt (c # s) of
        None \<Rightarrow> findHeaders (Suc i) s
      | Some (len, groups) \<Rightarrow> (i, groups) # findHeaders (i + len) (drop (len - 1) s))"
  by pat_completeness auto
termination
  by (relation "measure (\<lambda>(i, s). length s)") auto

definition CHAPTER_NAMES :: "jstr \<Rightarrow> jstr option" where
  "CHAPTER_NAMES =
     map_of
       [(str ''01'', str ''Attitude et comportement''),
        (str ''02'', str ''Bilans''),
        (str ''03'', str ''Protection et s'' @ [233] @ str ''curit'' @ [233]),
        (str ''04'', str ''Hygi'' @ [232] @ str ''ne et asepsie''),
        (str ''05'', str ''Urgences vitales''),
        (str ''06'', str ''Malaises et affections''),
        (str ''07'', str ''Atteintes circonstancielles''),
        (str ''08'', str ''Traumatismes''),
        (str ''09'', str ''Souffrance psychique''),
        (str ''10'', str ''Relevage et brancardage''),
        (str ''11'', str ''Situations '' @ [224] @ str '' nombreuses victimes''),
        (str ''12'', str ''Divers'')]"

definition FICHE_TYPES :: "jstr \<Rightarrow> jstr option" where
  "FICHE_TYPES =
     map_of
       [(str ''AC'', str ''Apport de Connaissances''),
        (str ''PR'', str ''Proc'' @ [233] @ str ''dure''),
        (str ''FT'', str ''Fiche Technique'')]"

text \<open>
  \<open>detectPSELevel\<close>: \<open>/PSE\s*[\<dots>1]/i\<close> is tried first, then \<open>/PSE\s*[\<dots>2]/i\<close>, each
  anywhere in the text.
\<close>

definition levelAt :: "nat list \<Rightarrow> jstr \<Rightarrow> bool" where
  "levelAt marks s =
     (startsWithI s (str ''PSE'') \<and>
      (case dropWhile isWhiteSpace (drop 3 s) of [] \<Rightarrow> False | c # r \<Rightarrow> c \<in> set marks))"

fun levelTest :: "nat list \<Rightarrow> jstr \<Rightarrow> bool" where
  "levelTest marks [] = False"
| "levelTest marks (c # s) = (levelAt marks (c # s) \<or> levelTest marks s)"

definition detectPSELevel :: "jstr \<Rightarrow> nat option" where
  "detectPSELevel t =
     (if levelTest [circled1, 49] t then Some 1
      else if levelTest [circled2, 50] t then Some 2
      else None)"

text \<open>
  \<open>replace(/\n\s*\n\s*\n/g, "\n\n")\<close>: a match starts at a line feed and needs two more line
  feeds in the white space that follows; the greedy repetitions make it end at the last
  line feed of that white space.
\<close>

definition blankLinesAt :: "jstr \<Rightarrow> nat option" where
  "blankLinesAt s =
     (case s of
        [] \<Rightarrow> None
      | c # r \<Rightarrow>
          (let run = takeWhile isWhiteSpace r in
           if c = 10 \<and> 2 \<le> length (filter (\<lambda>x. x = 10) run)
           then Some (Suc (length run - length (takeWhile (\<lambda>x. x \<noteq> 10) (rev run))))
           else None))"

function replaceBlankLines :: "jstr \<Rightarrow> jstr" where
  "replaceBlankLines [] = []"
| "replaceBlankLines (c # s) =
     (case blankLinesAt (c # s) of
        None \<Rightarrow> c # replaceBlankLines s
      | Some len \<Rightarrow> [10, 10] @ replaceBlankLines (drop (len - 1) s))"
  by pat_completeness auto
termination
  by (relation "measure length") auto

definition cleanPSEText :: "jstr \<Rightarrow> jstr" where
  "cleanPSEText t = trim (replaceRuns (\<lambda>c. c = 10) 4 [10, 10, 10] (replaceCRLF t))"

text \<open>One turn of the loop over the matches: the fiche of a match and of its span.\<close>

definition makeFiche :: "HeaderGroups \<Rightarrow> jstr \<Rightarrow> PSEFiche" where
  "makeFiche groups rawSpan =
     (let ficheContent = trim rawSpan;
          level = detectPSELevel (slice ficheContent 0 200);
          cleaned = trim (replaceBlankLines (replaceRuns isWhiteSpace 3 [32, 32] ficheContent))
      in \<lparr> content_of = cleaned,
           chapterCode = g_chapter groups,
           chapterName =
             (case CHAPTER_NAMES (g_chapter groups) of
                Some n \<Rightarrow> n | None \<Rightarrow> str ''Chapitre '' @ g_chapter groups),
           ficheType = g_ficheType groups,
           ficheTypeName =
             (case FICHE_TYPES (g_ficheType groups) of
                Some n \<Rightarrow> n | None \<Rightarrow> g_ficheType groups),
           ficheRef = g_chapter groups @ g_ficheType groups @ g_ficheNumber groups,
           ficheNumber = g_ficheNumber groups,
           updateDate = g_month groups @ [45] @ g_year groups,
           pseLevel = level \<rparr>)"

text \<open>
  The span of every match: from its offset to the offset of the next match, or to the
  end of the cleaned text for the last one.
\<close>

fun spansOf :: "jstr \<Rightarrow> nat list \<Rightarrow> jstr list" where
  "spansOf t [] = []"
| "spansOf t [i] = [slice t i (length t)]"
| "spansOf t (i # j # js) = slice t i j # spansOf t (j # js)"

definition ficheSpans :: "jstr \<Rightarrow> jstr list" where
  "ficheSpans text = (let t = cleanPSEText text in spansOf t (map fst (findHeaders 0 t)))"

definition splitIntoPSEFiches :: "jstr \<Rightarrow> PSEFiche list" where
  "splitIntoPSEFiches text =
     (let cleanedText = cleanPSEText text;
          matches = findHeaders 0 cleanedText
      in map (\<lambda>(groups, rawSpan). makeFiche groups rawSpan)
           (zip (map snd matches) (spansOf cleanedText (map fst matches))))"

subsection \<open>Chunks (the fallback for documents without fiches)\<close>

definition CHUNK_SIZE :: nat where
  "CHUNK_SIZE = 500"

definition CHUNK_OVERLAP :: nat where
  "CHUNK_OVERLAP = 100"

text \<open>
  \<open>s.lastIndexOf(c, pos)\<close> for a single character: the greatest offset not after \<open>pos\<close>
  where \<open>c\<close> stands, or -1.
\<close>

definition lastIndexOf :: "jstr \<Rightarrow> nat \<Rightarrow> nat \<Rightarrow> int" where
  "lastIndexOf s c pos =
     (let r = dropWhile (\<lambda>x. x \<noteq> c) (rev (take (Suc pos) s))
      in if r = [] then - 1 else int (length r) - 1)"

definition cleanChunkText :: "jstr \<Rightarrow> jstr" where
  "cleanChunkText t =
     trim (replaceRuns isWhiteSpace 1 [32]
       (replaceRuns (\<lambda>c. c = 10) 3 [10, 10] (replaceCRLF t)))"

text \<open>The end of the window that starts at \<open>start\<close>.\<close>

definition windowEnd :: "jstr \<Rightarrow> nat \<Rightarrow> nat" where
  "windowEnd cleanedText start =
     (let end0 = start + CHUNK_SIZE in
      if end0 < length cleanedText
      then (let lastPeriod = lastIndexOf cleanedText 46 end0;
                lastNewline = lastIndexOf cleanedText 10 end0;
                breakPoint = max lastPeriod lastNewline
            in if real start + real CHUNK_SIZE / 2 < real_of_int breakPoint
               then nat (breakPoint + 1) else end0)
      else end0)"

lemma windowEnd_bounds:
  "start + CHUNK_OVERLAP < windowEnd t start \<and> windowEnd t start \<le> start + CHUNK_SIZE + 1"
proof -
  have le: "lastIndexOf t c pos \<le> int pos" for c pos
  proof -
    have "length (dropWhile (\<lambda>x. x \<noteq> c) (rev (take (Suc pos) t))) \<le> Suc pos"
      by (rule order_trans [OF length_dropWhile_le]) simp
    then show ?thesis by (simp add: lastIndexOf_def Let_def)
  qed
  have "max (lastIndexOf t 46 (start + 500)) (lastIndexOf t 10 (start + 500)) \<le> int start + 500"
    using le [of 46 "start + 500"] le [of 10 "start + 500"] by simp
  then show ?thesis
    by (auto simp: windowEnd_def CHUNK_SIZE_def CHUNK_OVERLAP_def Let_def)
qed

text \<open>
  The loop of \<open>splitIntoChunks\<close>: a chunk is pushed when it is longer than 50 characters
  after \<open>trim\<close>, and the next window starts \<open>CHUNK_OVERLAP\<close> before the end of this one.
\<close>

function chunkLoop :: "jstr \<Rightarrow> nat \<Rightarrow> jstr list" where
  "chunkLoop cleanedText start =
     (if start < length cleanedText
      then (let stop = windowEnd cleanedText start;
                chunk = trim (slice cleanedText start stop)
            in (if 50 < length chunk then [chunk] else []) @
               chunkLoop cleanedText (stop - CHUNK_OVERLAP))
      else [])"
  by pat_completeness auto
termination
proof (relation "measure (\<lambda>(t, start). length t - start)")
  show "wf (measure (\<lambda>(t, start). length t - start))" by simp
next
  fix cleanedText :: jstr and start stop :: nat
  assume "start < length cleanedText" and "stop = windowEnd cleanedText start"
  then show "((cleanedText, stop - CHUNK_OVERLAP), (cleanedText, start))
             \<in> measure (\<lambda>(t, start). length t - start)"
    using windowEnd_bounds [of start cleanedText] by auto
qed

declare chunkLoop.simps [simp del]

definition splitIntoChunks :: "jstr \<Rightarrow> jstr list" where
  "splitIntoChunks text = chunkLoop (cleanChunkText text) 0"

section \<open>Concrete inputs\<close>

text \<open>
  A record whose first line is a fiche header (reference 05PR08, date 12-2022, the
  level marker \<open>PSE\<close> with the circled one, the title \<open>Hemorragie externe\<close> with an e-acute),
  and one whose first line has no header and that stores no reference.
\<close>

definition docHemorragie :: DocumentMatch where
  "docHemorragie =
     \<lparr> doc_id = 7,
       content = str ''[05PR08 / 12-2022] PSE'' @ [circled1] @ str '' H'' @ [233] @
                 str ''morragie externe'' @ [10] @ str ''Body text...'',
       source = str ''Referentiel_PSE.pdf'', similarity = dbl 0.85, fiche_ref = None \<rparr>"

definition docPlain :: DocumentMatch where
  "docPlain =
     \<lparr> doc_id = 9, content = str ''Introduction'' @ [10] @ str ''Texte libre'',
       source = str ''Guide_SST.pdf'', similarity = dbl 0.6, fiche_ref = None \<rparr>"

text \<open>
  The services of the merge scenario: the lexical query returns the row 7, the vector pass
  returns the record 7 scored 0.30 and the record 9 scored 0.60, and the text query
  returns nothing. The services of the filter scenario: the vector pass returns a record
  of \<open>Guide_SST.pdf\<close> and one of \<open>Referentiel_PSC1.pdf\<close>.
\<close>

definition rowHemorragie :: StoreRow where
  "rowHemorragie =
     \<lparr> row_id = 7,
       row_content = str ''[05PR08 / 12-2022] PSE'' @ [circled1] @ str '' H'' @ [233] @
                 str ''morragie externe'' @ [10] @ str ''Body text...'',
       row_source = str ''Referentiel_PSE.pdf'', row_fiche_ref = None \<rparr>"

definition docPSC :: DocumentMatch where
  "docPSC =
     \<lparr> doc_id = 3, content = str ''PSC1 Saignement abondant'' @ [10] @ str ''Comprimer'',
       source = str ''Referentiel_PSC1.pdf'', similarity = 0.5, fiche_ref = None \<rparr>"

definition queryHemorragie :: jstr where
  "queryHemorragie = str ''H'' @ [233] @ str ''morragie externe''"

definition services_scenario :: Services where
  "services_scenario =
     \<lparr> generateEmbedding = (\<lambda>q. Inr [dbl 0.1, dbl 0.2]),
       match_documents = (\<lambda>e t n.
         Inr (Response (Some [docHemorragie\<lparr>similarity := dbl 0.3\<rparr>, docPlain]) None)),
       select_documents = (\<lambda>q.
         Inr (Response (Some (if orContent q = [] then [rowHemorragie] else [])) None)),
       messages_create = (\<lambda>q. Inl (Thrown (str ''overloaded''))) \<rparr>"

definition services_PSC :: Services where
  "services_PSC =
     \<lparr> generateEmbedding = (\<lambda>q. Inr [dbl 0.1, dbl 0.2]),
       match_documents = (\<lambda>e t n. Inr (Response (Some [docPlain, docPSC]) None)),
       select_documents = (\<lambda>q. Inr (Response (Some []) None)),
       messages_create = (\<lambda>q. Inl (Thrown (str ''overloaded''))) \<rparr>"

text \<open>
  A protocol text for the lexical pass of the chat endpoint; services whose embedding call
  throws, and services whose store answers the vector query with an error; a record whose
  title is \<open>conduite a tenir\<close> for the gate.
\<close>

definition rowProtocole :: StoreRow where
  "rowProtocole =
     \<lparr> row_id = 11,
       row_content = str ''En pr'' @ [233] @ str ''sence d'' @ [39] @ str ''une h'' @ [233] @
         str ''morragie externe, comprimer la plaie.'',
       row_source = str ''Referentiel_PSE.pdf'', row_fiche_ref = None \<rparr>"

definition services_protocole :: Services where
  "services_protocole =
     \<lparr> generateEmbedding = (\<lambda>q. Inr [dbl 0.1, dbl 0.2]),
       match_documents = (\<lambda>e t n. Inr (Response (Some []) None)),
       select_documents = (\<lambda>q.
         Inr (Response (Some (if orContent q = [] then [rowHemorragie, rowProtocole] else []))
           None)),
       messages_create = (\<lambda>q. Inr [TextBlock (str '' hemorragie externe '')]) \<rparr>"

definition services_embeddingDown :: Services where
  "services_embeddingDown =
     services_scenario\<lparr> generateEmbedding := (\<lambda>q. Inl (Thrown (str ''Hugging Face API error''))) \<rparr>"

definition services_storeError :: Services where
  "services_storeError =
     services_scenario\<lparr> match_documents :=
       (\<lambda>e t n. Inr (Response None (Some (str ''function match_documents failed'')))) \<rparr>"

definition docConduite :: DocumentMatch where
  "docConduite =
     \<lparr> doc_id = 21,
       content = str ''[06PR01 / 12-2022] PSE'' @ [circled1] @ str '' Conduite a tenir'' @ [10] @
         str ''Installer la victime.'',
       source = str ''Referentiel_PSE.pdf'', similarity = 0.5, fiche_ref = Some (str ''06PR01'') \<rparr>"

definition queryConduite :: jstr where
  "queryConduite = str ''Conduite hemorragie''"

definition services_conduite :: Services where
  "services_conduite =
     \<lparr> generateEmbedding = (\<lambda>q. Inr [dbl 0.1, dbl 0.2]),
       match_documents = (\<lambda>e t n. Inr (Response (Some [docConduite]) None)),
       select_documents = (\<lambda>q. Inr (Response (Some []) None)),
       messages_create = (\<lambda>q. Inr []) \<rparr>"

text \<open>
  A query of five keywords and a row whose content has four of them, under a first line
  that has none: in the second fiche endpoint its lexical score is
  \<open>0.7 + (4 / 5) * 0.25\<close>.
\<close>

definition queryGarrot :: jstr where
  "queryGarrot = str ''hemorragie externe garrot compression plaie''"

definition rowGarrot :: StoreRow where
  "rowGarrot =
     \<lparr> row_id = 31,
       row_content = str ''Fiche 12'' @ [10] @ str ''hemorragie externe compression plaie'',
       row_source = str ''Referentiel_PSE.pdf'', row_fiche_ref = None \<rparr>"

definition services_garrot :: Services where
  "services_garrot =
     \<lparr> generateEmbedding = (\<lambda>q. Inr [dbl 0.1, dbl 0.2]),
       match_documents = (\<lambda>e t n. Inr (Response (Some []) None)),
       select_documents = (\<lambda>q. Inr (Response (Some [rowGarrot]) None)),
       messages_create = (\<lambda>q. Inr []) \<rparr>"

text \<open>
  Texts for the structural parser: two fiches; one fiche after a preamble; and, for the
  chunks, 500 letters followed by a full stop.
\<close>

definition twoFiches :: jstr where
  "twoFiches =
     str ''[05PR08 / 12-2022] PSE'' @ [circled1] @ str '' H'' @ [233] @ str ''morragie externe'' @
     [10] @ str ''Body text...'' @ [10] @
     str ''[05PR09 / 12-2022] PSE'' @ [circled1] @ str '' Autre fiche'' @ [10] @ str ''...''"

definition withPreamble :: jstr where
  "withPreamble = str ''Sommaire '' @ str ''[05PR08 / 12-2022] PSE2 Garrot''"

definition groups08 :: HeaderGroups where
  "groups08 = \<lparr> g_chapter = str ''05'', g_ficheType = str ''PR'', g_ficheNumber = str ''08'',
      g_month = str ''12'', g_year = str ''2022'' \<rparr>"

definition groups09 :: HeaderGroups where
  "groups09 = \<lparr> g_chapter = str ''05'', g_ficheType = str ''PR'', g_ficheNumber = str ''09'',
      g_month = str ''12'', g_year = str ''2022'' \<rparr>"

definition span08 :: jstr where
  "span08 = str ''[05PR08 / 12-2022] PSE'' @ [circled1] @ str '' H'' @ [233] @
     str ''morragie externe'' @ [10] @ str ''Body text...'' @ [10]"

definition span09 :: jstr where
  "span09 = str ''[05PR09 / 12-2022] PSE'' @ [circled1] @ str '' Autre fiche'' @ [10] @ str ''...''"

definition longSentence :: jstr where
  "longSentence = replicate 500 97 @ [46]"

section \<open>Doubles: rounding is monotone\<close>

text \<open>
  The exponent brackets its argument, so \<open>ulp\<close> is the spacing of the doubles of the
  binade of \<open>x\<close>; rounding is monotone on the non-negative reals.
\<close>

lemma expo_bounds:
  assumes "x \<noteq> 0"
  shows "2 powi expo x \<le> \<bar>x\<bar> \<and> \<bar>x\<bar> < 2 powi (expo x + 1)"
proof (cases "1 \<le> \<bar>x\<bar>")
  case True
  define n where "n = \<lfloor>\<bar>x\<bar>\<rfloor>"
  have n: "0 < n" using True by (simp add: n_def)
  have e: "expo x = bitlen n - 1" using True by (simp add: expo_def n_def)
  from bitlen_bounds [OF n] have b: "2 ^ nat (bitlen n - 1) \<le> n" "n < 2 ^ nat (bitlen n)"
    by simp_all
  have k: "1 \<le> bitlen n" using n by (simp add: bitlen_alt_def)
  have "real_of_int (2 ^ nat (bitlen n - 1)) \<le> real_of_int n" using b(1) by linarith
  also have "\<dots> \<le> \<bar>x\<bar>" by (simp add: n_def)
  finally have lo: "2 powi (bitlen n - 1) \<le> \<bar>x\<bar>"
    using k by (simp add: power_int_def)
  have "n + 1 \<le> 2 ^ nat (bitlen n)" using b(2) by simp
  then have "real_of_int (n + 1) \<le> real_of_int (2 ^ nat (bitlen n))" by linarith
  moreover have "\<bar>x\<bar> < real_of_int (n + 1)" by (simp add: n_def)
  ultimately have hi: "\<bar>x\<bar> < 2 powi (bitlen n)"
    using k by (simp add: power_int_def)
  from lo hi e show ?thesis by simp
next
  case False
  define y where "y = 1 / \<bar>x\<bar>"
  define m where "m = \<lceil>y\<rceil> - 1"
  have xp: "0 < \<bar>x\<bar>" "\<bar>x\<bar> < 1" using assms False by simp_all
  then have y1: "1 < y" by (simp add: y_def)
  have m: "0 < m" using y1 by (simp add: m_def less_ceiling_iff)
  have e: "expo x = - bitlen m" using False by (simp add: expo_def m_def y_def)
  from bitlen_bounds [OF m] have b: "2 ^ nat (bitlen m - 1) \<le> m" "m < 2 ^ nat (bitlen m)"
    by simp_all
  have k: "1 \<le> bitlen m" using m by (simp add: bitlen_alt_def)
  have my: "real_of_int m < y" "y \<le> real_of_int (m + 1)"
    by (simp_all add: m_def) linarith+
  have "m + 1 \<le> 2 ^ nat (bitlen m)" using b(2) by simp
  then have "real_of_int (m + 1) \<le> real_of_int (2 ^ nat (bitlen m))" by linarith
  with my(2) have yhi: "y \<le> 2 ^ nat (bitlen m)" by simp
  have "real_of_int (2 ^ nat (bitlen m - 1)) \<le> real_of_int m"
    using b(1) by (simp only: of_int_le_iff)
  then have "(2::real) ^ nat (bitlen m - 1) \<le> real_of_int m" by simp
  with my(1) have ylo: "2 ^ nat (bitlen m - 1) < y" by linarith
  have xy: "\<bar>x\<bar> = 1 / y" using xp by (simp add: y_def)
  have lo: "2 powi (- bitlen m) \<le> \<bar>x\<bar>"
  proof -
    have "1 / 2 ^ nat (bitlen m) \<le> 1 / y"
      using yhi y1 by (intro divide_left_mono) simp_all
    then show ?thesis using k xy by (simp add: power_int_def field_simps)
  qed
  have hi: "\<bar>x\<bar> < 2 powi (- bitlen m + 1)"
  proof -
    have "1 / y < 1 / 2 ^ nat (bitlen m - 1)"
      using ylo y1 by (intro divide_strict_left_mono) simp_all
    moreover have "(2::real) powi (- bitlen m + 1) = 1 / 2 ^ nat (bitlen m - 1)"
      using k by (cases "bitlen m = 1") (simp_all add: power_int_def field_simps nat_diff_distrib)
    ultimately show ?thesis using xy by simp
  qed
  from lo hi e show ?thesis by simp
qed

lemma roundEven_le: "q \<le> of_int N \<Longrightarrow> roundEven q \<le> N"
proof -
  assume a: "q \<le> of_int N"
  have "roundEven q \<le> \<lceil>q\<rceil>"
    unfolding roundEven_def Let_def by (auto simp: ceiling_altdef)
  also have "\<dots> \<le> N" using a by (simp add: ceiling_le)
  finally show ?thesis .
qed

lemma roundEven_ge: "of_int N \<le> q \<Longrightarrow> N \<le> roundEven q"
proof -
  assume a: "of_int N \<le> q"
  have "N \<le> \<lfloor>q\<rfloor>" using a by (simp add: le_floor_iff)
  also have "\<dots> \<le> roundEven q"
    unfolding roundEven_def Let_def by auto
  finally show ?thesis .
qed

lemma roundEven_mono: "q \<le> q' \<Longrightarrow> roundEven q \<le> roundEven q'"
proof -
  assume a: "q \<le> q'"
  then have f: "\<lfloor>q\<rfloor> \<le> \<lfloor>q'\<rfloor>" by (rule floor_mono)
  show ?thesis
  proof (cases "\<lfloor>q\<rfloor> = \<lfloor>q'\<rfloor>")
    case True
    with a show ?thesis unfolding roundEven_def Let_def by auto
  next
    case False
    with f have "\<lfloor>q\<rfloor> + 1 \<le> \<lfloor>q'\<rfloor>" by simp
    moreover have "roundEven q \<le> \<lfloor>q\<rfloor> + 1" unfolding roundEven_def Let_def by auto
    moreover have "\<lfloor>q'\<rfloor> \<le> roundEven q'" unfolding roundEven_def Let_def by auto
    ultimately show ?thesis by linarith
  qed
qed

lemma expo_mono:
  assumes "0 < x" "x \<le> y"
  shows "expo x \<le> expo y"
proof (rule ccontr)
  assume "\<not> expo x \<le> expo y"
  then have l: "expo y + 1 \<le> expo x" by simp
  from assms have nz: "x \<noteq> 0" "y \<noteq> 0" by simp_all
  from expo_bounds [OF nz(1)] assms have a: "2 powi expo x \<le> x" by simp
  from expo_bounds [OF nz(2)] assms have b: "y < 2 powi (expo y + 1)" by simp
  have "(2::real) powi (expo y + 1) \<le> 2 powi expo x"
    using l by (intro power_int_increasing) simp_all
  with a b assms show False by linarith
qed

lemma ulp_pos: "0 < ulp x"
  by (simp add: ulp_def)

lemma dbl_nonneg: "0 \<le> x \<Longrightarrow> 0 \<le> dbl x"
proof -
  assume "0 \<le> x"
  then have "of_int 0 \<le> x / ulp x" using ulp_pos [of x] by simp
  then have "0 \<le> roundEven (x / ulp x)" by (rule roundEven_ge)
  then show ?thesis unfolding dbl_def using ulp_pos [of x] by simp
qed

lemma dbl_mono:
  assumes "0 \<le> x" "x \<le> y"
  shows "dbl x \<le> dbl y"
proof (cases "x = 0")
  case True
  have "dbl 0 = 0" by (simp add: dbl_def roundEven_def)
  with True dbl_nonneg [of y] assms show ?thesis by simp
next
  case False
  with assms have xp: "0 < x" and yp: "0 < y" by simp_all
  define ex where "ex = max (expo x) (- 1022)"
  define ey where "ey = max (expo y) (- 1022)"
  have le: "ex \<le> ey" using expo_mono [OF xp assms(2)] by (simp add: ex_def ey_def)
  have ux: "ulp x = 2 powi (ex - 52)" and uy: "ulp y = 2 powi (ey - 52)"
    by (simp_all add: ulp_def ex_def ey_def)
  show ?thesis
  proof (cases "ex = ey")
    case True
    then have u: "ulp x = ulp y" by (simp add: ux uy)
    have "x / ulp y \<le> y / ulp y" using assms(2) ulp_pos [of y] by (simp add: divide_right_mono)
    then have "roundEven (x / ulp y) \<le> roundEven (y / ulp y)" by (rule roundEven_mono)
    then have "real_of_int (roundEven (x / ulp y)) * ulp y \<le> real_of_int (roundEven (y / ulp y)) * ulp y"
      using ulp_pos [of y] by simp
    then show ?thesis by (simp add: dbl_def u)
  next
    case False
    with le have lt: "ex + 1 \<le> ey" by simp
    then have ny: "ey = expo y" by (auto simp: ey_def ex_def)
    have "x < 2 powi (expo x + 1)" using expo_bounds [of x] xp by simp
    also have "\<dots> \<le> 2 powi (ex + 1)"
      by (intro power_int_increasing) (simp_all add: ex_def)
    finally have xb: "x < 2 powi (ex + 1)" .
    have "(2::real) powi (ex + 1) = 2 powi 53 * 2 powi (ex - 52)"
      using power_int_add [of "2::real" 53 "ex - 52"] by (simp add: add.commute)
    then have t: "(2::real) powi (ex + 1) = of_int (2 ^ 53) * ulp x"
      by (simp add: ux)
    have "x / ulp x \<le> of_int (2 ^ 53)"
      using xb ulp_pos [of x] unfolding t by (simp add: pos_divide_le_eq)
    then have "roundEven (x / ulp x) \<le> 2 ^ 53" by (rule roundEven_le)
    then have "real_of_int (roundEven (x / ulp x)) \<le> real_of_int (2 ^ 53)"
      by (simp only: of_int_le_iff)
    then have "dbl x \<le> of_int (2 ^ 53) * ulp x"
      unfolding dbl_def using ulp_pos [of x] by (intro mult_right_mono) simp_all
    then have 1: "dbl x \<le> 2 powi (ex + 1)" by (simp only: t)
    have 2: "(2::real) powi (ex + 1) \<le> 2 powi ey"
      using lt by (intro power_int_increasing) simp_all
    have "(2::real) powi ey = 2 powi 52 * 2 powi (ey - 52)"
      using power_int_add [of "2::real" 52 "ey - 52"] by (simp add: add.commute)
    then have s: "(2::real) powi ey = of_int (2 ^ 52) * ulp y"
      by (simp add: uy)
    have "2 powi ey \<le> y" using expo_bounds [of y] yp ny by simp
    then have "of_int (2 ^ 52) \<le> y / ulp y"
      using ulp_pos [of y] unfolding s by (simp add: pos_le_divide_eq)
    then have "2 ^ 52 \<le> roundEven (y / ulp y)" by (rule roundEven_ge)
    then have "real_of_int (2 ^ 52) \<le> real_of_int (roundEven (y / ulp y))"
      by (simp only: of_int_le_iff)
    then have "of_int (2 ^ 52) * ulp y \<le> dbl y"
      unfolding dbl_def using ulp_pos [of y] by (intro mult_right_mono) simp_all
    then have 3: "2 powi ey \<le> dbl y" by (simp only: s)
    from 1 2 3 show ?thesis by linarith
  qed
qed

text \<open>
  The literals of the sources are not doubles, and the arithmetic shows it: \<open>0.7 * 0.4\<close>
  is below 0.28, \<open>0.4 + (1 / 2) * 0.4\<close> is above 0.6, and a lexical score built from
  four keywords out of five, \<open>0.7 + (4 / 5) * 0.25\<close>, is below the literal \<open>0.9\<close>.
\<close>

lemma dbl_examples:
  "dbl 0.85 = 7656119366529843 / 9007199254740992"
  "fmul (dbl 0.7) (dbl 0.4) = 5044031582654955 / 18014398509481984"
  "fmul (dbl 0.7) (dbl 0.4) < 0.28"
  "0.6 < fadd (dbl 0.4) (fmul (fdiv 1 2) (dbl 0.4))"
  "fadd (dbl 0.7) (fmul (fdiv 4 5) (dbl 0.25)) < dbl 0.9"
  by code_simp+

lemma dbl_exact: "dbl 0 = 0" "dbl 1 = 1" "dbl 0.5 = 0.5"
  by code_simp+

lemma dbl_order:
  "dbl 0.3 < dbl 0.6" "dbl 0.6 < dbl 0.85" "dbl 0.85 < dbl 0.99"
  "fadd (dbl 0.85) (dbl 0.12) < dbl 0.99" "dbl 0.85 < fadd (dbl 0.85) (dbl 0.12)"
  "dbl 0.99 < 1" "0.5 < dbl 0.9" "dbl 0.95 < 1"
  by code_simp+

lemma dbl_scores:
  "fadd (dbl 0.75) (dbl 0.2) = dbl 0.95" "fadd (dbl 0.7) (dbl 0.25) = dbl 0.95"
  "fadd (dbl 0.85) (dbl 0.12) = dbl 0.97"
  "fadd (dbl 0.75) (fmul (fdiv 2 2) (dbl 0.2)) = dbl 0.95"
  by code_simp+

lemma dbl_idem:
  "dbl (dbl 0.75) = dbl 0.75" "dbl (dbl 0.7) = dbl 0.7"
  "dbl (dbl 0.2) = dbl 0.2" "dbl (dbl 0.25) = dbl 0.25"
  by code_simp+

lemma dbl_nonneg_literals:
  "0 \<le> dbl 0.75" "0 \<le> dbl 0.7" "0 \<le> dbl 0.2" "0 \<le> dbl 0.25"
  by (simp_all add: dbl_nonneg)

lemma fourOfFive_penalty:
  "fmul (fadd (dbl 0.7) (fmul (fdiv 4 5) (dbl 0.25))) (dbl 0.4) = dbl 0.36"
  by code_simp

lemma half_penalty:
  "fmul 0.5 (dbl 0.4) = 0.5 * dbl 0.4" "fmul 0.5 (dbl 0.4) = dbl 0.2" "fmul 0.5 (dbl 0.4) < 0.5"
  by code_simp+

section \<open>The case conversion on the Latin-1 alphabet\<close>

lemma latin1Case_lower:
  "latin1Case rt \<Longrightarrow> list_all plainUnit s \<Longrightarrow> toLowerCase rt s = map lowerUnit s"
  by (simp add: latin1Case_def)

lemma latin1Case_upper:
  "latin1Case rt \<Longrightarrow> list_all plainUnit s \<Longrightarrow> toUpperCase rt s = concat (map upperUnit s)"
  by (simp add: latin1Case_def)

lemma runtimeLatin1_latin1Case: "latin1Case runtimeLatin1"
  by (simp add: latin1Case_def runtimeLatin1_def)

lemma plain_queryHemorragie: "list_all plainUnit queryHemorragie"
  by (simp add: queryHemorragie_def str_def plainUnit_def)

lemma plain_queryConduite: "list_all plainUnit queryConduite"
  by (simp add: queryConduite_def str_def plainUnit_def)

lemma plain_rowHemorragie: "list_all plainUnit (row_content rowHemorragie)"
  by (simp add: rowHemorragie_def str_def plainUnit_def)

lemma plain_rowProtocole: "list_all plainUnit (row_content rowProtocole)"
  by (simp add: rowProtocole_def str_def plainUnit_def)

lemma plain_docHemorragie: "list_all plainUnit (content docHemorragie)"
  by (simp add: docHemorragie_def str_def plainUnit_def)

lemma plain_title_docPSC: "list_all plainUnit (firstLine (content docPSC))"
  by (simp add: docPSC_def firstLine_def str_def plainUnit_def)

lemma plain_title_docConduite: "list_all plainUnit (firstLine (content docConduite))"
  by (simp add: docConduite_def firstLine_def str_def plainUnit_def)

lemma plain_queryGarrot: "list_all plainUnit queryGarrot"
  by (simp add: queryGarrot_def str_def plainUnit_def)

lemma plain_rowGarrot:
  "list_all plainUnit (row_content rowGarrot)"
  "list_all plainUnit (firstLine (row_content rowGarrot))"
  by (simp_all add: rowGarrot_def firstLine_def str_def plainUnit_def)

lemma plain_sources:
  "list_all plainUnit (source docPSC)" "list_all plainUnit (source docPlain)"
  "list_all plainUnit (str ''PSC'')" "list_all plainUnit (str ''psc'')"
  by (simp_all add: docPSC_def docPlain_def str_def plainUnit_def)

lemma upperUnit_ascii: "c < 128 \<Longrightarrow> upperUnit c = [canonUnit c]"
  by (simp add: upperUnit_def canonUnit_def)

lemma upper_ascii: "list_all (\<lambda>c. c < 128) s \<Longrightarrow> concat (map upperUnit s) = map canonUnit s"
  by (induction s) (simp_all add: upperUnit_ascii)

lemma plain_ascii: "list_all (\<lambda>c. c < 128) s \<Longrightarrow> list_all plainUnit s"
  by (induction s) (simp_all add: plainUnit_def)

lemma startsWith_canon: "startsWith (map canonUnit s) (map canonUnit n) = startsWithI s n"
  by (induction s n rule: startsWithI.induct) simp_all

lemma includes_canon:
  "str_includes (map canonUnit s) (map canonUnit n) = includesIgnoringCase s n"
proof (induction s)
  case Nil
  show ?case by simp
next
  case (Cons c s)
  have "startsWith (canonUnit c # map canonUnit s) (map canonUnit n) = startsWithI (c # s) n"
    using startsWith_canon [of "c # s" n] by simp
  with Cons show ?case by simp
qed

lemma upper_includes_ascii:
  assumes "latin1Case rt" "list_all (\<lambda>c. c < 128) s" "list_all (\<lambda>c. c < 128) n"
  shows "str_includes (toUpperCase rt s) (toUpperCase rt n) = includesIgnoringCase s n"
proof -
  have "toUpperCase rt s = map canonUnit s"
    using latin1Case_upper [OF assms(1) plain_ascii [OF assms(2)]] upper_ascii [OF assms(2)]
    by simp
  moreover have "toUpperCase rt n = map canonUnit n"
    using latin1Case_upper [OF assms(1) plain_ascii [OF assms(3)]] upper_ascii [OF assms(3)]
    by simp
  ultimately show ?thesis by (simp only: includes_canon)
qed

section \<open>The fiche view: deduplication by reference\<close>

lemma dedupeByRef_refless:
  "filter (\<lambda>f. ref f = []) (dedupeByRef seen fs) = filter (\<lambda>f. ref f = []) fs"
  by (induction fs arbitrary: seen) auto

lemma dedupeByRef_subseq: "subseq (dedupeByRef seen fs) fs"
  by (induction fs arbitrary: seen) auto

lemma dedupeByRef_seen:
  "r \<in> seen \<Longrightarrow> r \<noteq> [] \<Longrightarrow> filter (\<lambda>f. ref f = r) (dedupeByRef seen fs) = []"
  by (induction fs arbitrary: seen) auto

lemma dedupeByRef_first:
  "r \<notin> seen \<Longrightarrow> r \<noteq> [] \<Longrightarrow>
   filter (\<lambda>f. ref f = r) (dedupeByRef seen fs) = take 1 (filter (\<lambda>f. ref f = r) fs)"
  by (induction fs arbitrary: seen) (auto simp: dedupeByRef_seen)

lemma refMatch_length: "refMatch s = Some (r, d) \<Longrightarrow> length r = 6"
  by (induction s) (auto simp: isRef6_def Let_def split: if_splits)

lemma parseFiche_ref:
  "ref (parseFiche doc) =
     (case headerMatch (firstLine (content doc)) of
        None \<Rightarrow> (case fiche_ref doc of None \<Rightarrow> [] | Some r \<Rightarrow> r)
      | Some (refPart, g) \<Rightarrow>
          (case refMatch refPart of
             None \<Rightarrow> (case fiche_ref doc of None \<Rightarrow> [] | Some r \<Rightarrow> r)
           | Some (r1, d) \<Rightarrow> r1))"
  by (simp add: parseFiche_def Let_def split: option.splits prod.splits)

text \<open>
  C10. In the fiche-formatting endpoint the fiches are \<open>map parseFiche documents\<close> and the
  answer is \<open>uniqueFiches\<close> of them. The answer is a subsequence of the parsed fiches (the
  retained fiches keep the input order); the fiches with the empty reference are all in
  it, as many and in the same order as in the input; of the fiches with a given
  non-empty reference exactly the first is in it. A record whose first line has no header
  and that stores no reference is parsed to a fiche with the empty reference, and a
  reference taken from a header is never empty.
\<close>

theorem uniqueFiches_keeps_refless:
  "subseq (uniqueFiches (map parseFiche docs)) (map parseFiche docs) \<and>
   filter (\<lambda>f. ref f = []) (uniqueFiches (map parseFiche docs)) =
     filter (\<lambda>f. ref f = []) (map parseFiche docs) \<and>
   filter (\<lambda>f. ref f = r) (uniqueFiches (map parseFiche docs)) =
     (if r = [] then filter (\<lambda>f. ref f = r) (map parseFiche docs)
      else take 1 (filter (\<lambda>f. ref f = r) (map parseFiche docs))) \<and>
   (headerMatch (firstLine (content doc)) = None \<and> fiche_ref doc = None
      \<longrightarrow> ref (parseFiche doc) = []) \<and>
   (ref (parseFiche doc) = [] \<longrightarrow>
      (fiche_ref doc = None \<or> fiche_ref doc = Some []) \<and>
      (case headerMatch (firstLine (content doc)) of
         None \<Rightarrow> True | Some (refPart, g) \<Rightarrow> refMatch refPart = None))"
proof (intro conjI impI)
  show "subseq (uniqueFiches (map parseFiche docs)) (map parseFiche docs)"
    by (simp add: uniqueFiches_def dedupeByRef_subseq)
  show "filter (\<lambda>f. ref f = []) (uniqueFiches (map parseFiche docs)) =
        filter (\<lambda>f. ref f = []) (map parseFiche docs)"
    unfolding uniqueFiches_def by (rule dedupeByRef_refless)
  show "filter (\<lambda>f. ref f = r) (uniqueFiches (map parseFiche docs)) =
     (if r = [] then filter (\<lambda>f. ref f = r) (map parseFiche docs)
      else take 1 (filter (\<lambda>f. ref f = r) (map parseFiche docs)))"
  proof (cases "r = []")
    case True
    then show ?thesis
      unfolding uniqueFiches_def using dedupeByRef_refless [of "{}"] by simp
  next
    case False
    then show ?thesis
      unfolding uniqueFiches_def using dedupeByRef_first [of r "{}"] by simp
  qed
next
  assume "headerMatch (firstLine (content doc)) = None \<and> fiche_ref doc = None"
  then show "ref (parseFiche doc) = []"
    by (simp add: parseFiche_ref)
next
  assume e: "ref (parseFiche doc) = []"
  then show "fiche_ref doc = None \<or> fiche_ref doc = Some []"
    by (auto simp: parseFiche_ref split: option.splits prod.splits dest: refMatch_length)
  from e show "case headerMatch (firstLine (content doc)) of
         None \<Rightarrow> True | Some (refPart, g) \<Rightarrow> refMatch refPart = None"
    by (auto simp: parseFiche_ref split: option.splits prod.splits dest: refMatch_length)
qed

lemma parseFiche_docHemorragie_ref: "ref (parseFiche docHemorragie) = str ''05PR08''"
  by (simp add: parseFiche_def docHemorragie_def str_def firstLine_def isRef6_def
      isDigit_def isUpperAZ_def Let_def circled1_def)

lemma parseFiche_docPlain_ref: "ref (parseFiche docPlain) = []"
  by (simp add: parseFiche_def docPlain_def str_def firstLine_def Let_def)

lemma headerMatch_docPlain: "headerMatch (firstLine (content docPlain)) = None"
  by (simp add: docPlain_def str_def firstLine_def Let_def)

theorem uniqueFiches_keeps_refless_witness:
  "headerMatch (firstLine (content docPlain)) = None \<and> fiche_ref docPlain = None \<and>
   ref (parseFiche docPlain) = [] \<and>
   map ref (uniqueFiches
     (map parseFiche [docPlain, docHemorragie, docPlain, docHemorragie])) =
     [[], str ''05PR08'', []]"
  using uniqueFiches_keeps_refless
    [of "[docPlain, docHemorragie, docPlain, docHemorragie]" "str ''05PR08''" docPlain]
  by (simp add: uniqueFiches_def parseFiche_docHemorragie_ref parseFiche_docPlain_ref
      headerMatch_docPlain)
     (simp add: docPlain_def str_def)

section \<open>Hybrid search: merge precedence, order and source filter\<close>

lemma combineResults_filter:
  "filter (\<lambda>d. doc_id d = x) (combineResults seen ds) =
     (if x \<in> seen then [] else take 1 (filter (\<lambda>d. doc_id d = x) ds))"
  by (induction ds arbitrary: seen) auto

lemma combineResults_subset: "set (combineResults seen ds) \<subseteq> set ds"
  by (induction ds arbitrary: seen) auto

lemma find_filter_take1:
  "find P xs = Some d \<Longrightarrow> take 1 (filter P (xs @ ys)) = [d]"
  by (induction xs) (auto split: if_splits)

lemma filterBySource_mset: "mset (filterBySource rt f ds) \<subseteq># mset ds"
  by (simp add: filterBySource_def split: option.splits)

lemma take_mset_le: "mset (take n xs) \<subseteq># mset xs"
  by (metis append_take_drop_id mset_append mset_subset_eq_add_left)

lemma finish_chat_mset: "mset (finish_chat rt f ds) \<subseteq># mset (combineResults {} ds)"
proof -
  have "mset (finish_chat rt f ds) \<subseteq>#
      mset (sortBySimilarity (filterBySource rt f (combineResults {} ds)))"
    unfolding finish_chat_def by (rule take_mset_le)
  also have "\<dots> = mset (filterBySource rt f (combineResults {} ds))"
    by (simp add: sortBySimilarity_def)
  also have "\<dots> \<subseteq># mset (combineResults {} ds)"
    by (rule filterBySource_mset)
  finally show ?thesis .
qed

lemma filter_mset_single:
  assumes "mset xs \<subseteq># mset ys" "filter P ys = [d]"
  shows "filter P xs = (if d \<in> set xs then [d] else [])"
proof -
  have "mset (filter P xs) \<subseteq># mset (filter P ys)"
    using assms(1) by (simp add: multiset_filter_mono)
  then have le: "mset (filter P xs) \<subseteq># {#d#}" using assms(2) by simp
  have Pd: "P d" using assms(2) by (metis filter_eq_ConsD)
  have "size (mset (filter P xs)) \<le> size {#d#}"
    by (rule size_mset_mono [OF le])
  then have len: "length (filter P xs) \<le> 1"
    by (simp only: size_mset size_single)
  have sub: "set (filter P xs) \<subseteq> {d}"
    using set_mset_mono [OF le] by simp
  show ?thesis
  proof (cases "filter P xs")
    case Nil
    then have "d \<notin> set xs" using Pd by (auto simp: filter_empty_conv)
    with Nil show ?thesis by simp
  next
    case (Cons a as)
    with len have "as = []" by simp
    moreover from Cons sub have "a = d" by auto
    ultimately have e: "filter P xs = [d]" using Cons by simp
    then have "d \<in> set (filter P xs)" by simp
    then have "d \<in> set xs" by simp
    with e show ?thesis by simp
  qed
qed

lemma merge_precedence:
  assumes "find (\<lambda>d. doc_id d = x) lexical = Some d0"
  shows "filter (\<lambda>d. doc_id d = x) (combineResults {} (lexical @ vector @ textual)) = [d0]"
    and "filter (\<lambda>d. doc_id d = x) (finish_chat rt f (lexical @ vector @ textual)) =
          (if d0 \<in> set (finish_chat rt f (lexical @ vector @ textual)) then [d0] else [])"
proof -
  show m: "filter (\<lambda>d. doc_id d = x) (combineResults {} (lexical @ vector @ textual)) = [d0]"
    using find_filter_take1 [OF assms, of "vector @ textual"]
    by (simp only: combineResults_filter empty_iff if_False)
  show "filter (\<lambda>d. doc_id d = x) (finish_chat rt f (lexical @ vector @ textual)) =
          (if d0 \<in> set (finish_chat rt f (lexical @ vector @ textual)) then [d0] else [])"
    by (rule filter_mset_single [OF finish_chat_mset m])
qed

lemma sortBySimilarity_sorted:
  "sorted_wrt (\<lambda>a b. similarity b \<le> similarity a) (sortBySimilarity ds)"
proof -
  have "sorted (map (\<lambda>d. - similarity d) (sortBySimilarity ds))"
    by (simp add: sortBySimilarity_def)
  then show ?thesis
    by (simp add: sorted_wrt_map)
qed

lemma take_sorted_desc:
  "sorted_wrt (\<lambda>a b. similarity b \<le> similarity a) (take n (sortBySimilarity ds))"
  by (rule sorted_wrt_take [OF sortBySimilarity_sorted])

lemma sortBySimilarity_pair:
  "similarity b \<le> similarity a \<Longrightarrow> sortBySimilarity [a, b] = [a, b]"
  by (simp add: sortBySimilarity_def)

lemma str_includes_empty: "str_includes s []"
  by (induction s) auto

lemma filterBySource_all:
  assumes "f \<noteq> [] \<or> toUpperCase rt [] = []"
  shows "list_all (sourceMatches rt f) (filterBySource rt (Some f) ds)"
proof (cases "f = []")
  case True
  with assms have "sourceMatches rt f d" for d
    by (simp add: sourceMatches_def str_includes_empty)
  then show ?thesis by (simp add: list_all_iff)
next
  case False
  then show ?thesis by (simp add: filterBySource_def truthy_def list_all_iff)
qed

lemma finish_chat_subset:
  "set (finish_chat rt f ds) \<subseteq> set (filterBySource rt f (combineResults {} ds))"
  by (auto simp: finish_chat_def sortBySimilarity_def dest: in_set_takeD)

lemma keyWords_chat_queryHemorragie:
  assumes "latin1Case rt"
  shows "keyWords_chat rt queryHemorragie = [str ''h'' @ [233] @ str ''morragie'', str ''externe'']"
  unfolding keyWords_chat_def latin1Case_lower [OF assms plain_queryHemorragie]
  by (simp add: queryHemorragie_def str_def lowerUnit_def isWhiteSpace_def stopWords_chat_def)

lemma allKeywordsOf_queryHemorragie:
  assumes "latin1Case rt"
  shows "allKeywordsOf rt queryHemorragie queryHemorragie =
     [str ''h'' @ [233] @ str ''morragie'', str ''externe'']"
  unfolding allKeywordsOf_def wordsLongerThan_def latin1Case_lower [OF assms plain_queryHemorragie]
  by (simp add: queryHemorragie_def str_def lowerUnit_def isWhiteSpace_def)

lemma exactScore_chat_rowHemorragie:
  assumes "latin1Case rt"
  shows "exactScore_chat rt rowHemorragie = docHemorragie"
proof -
  have i: "\<not> str_includes (map lowerUnit (row_content rowHemorragie)) enPresence"
    by (simp add: rowHemorragie_def enPresence_def str_def lowerUnit_def circled1_def)
  have m: "min (dbl 0.85) (dbl 0.99) = dbl 0.85"
    using dbl_order(3) by simp
  have "exactScore_chat rt rowHemorragie = withSimilarity rowHemorragie (dbl 0.85)"
    unfolding exactScore_chat_def Let_def latin1Case_lower [OF assms plain_rowHemorragie]
    by (simp only: i if_False m)
  also have "\<dots> = docHemorragie"
    by (simp add: withSimilarity_def rowHemorragie_def docHemorragie_def)
  finally show ?thesis .
qed

lemma scenario_vector:
  "vectorResults services_scenario (dbl 0.15) 15 queryHemorragie =
     Inr [docHemorragie\<lparr>similarity := dbl 0.3\<rparr>, docPlain]"
  by (simp add: vectorResults_def bindE_def services_scenario_def)

lemma scenario_exact:
  assumes "latin1Case rt"
  shows "exactPhraseResults_chat rt services_scenario queryHemorragie None = Inr [docHemorragie]"
  by (simp add: exactPhraseResults_chat_def keyWords_chat_queryHemorragie [OF assms] bindE_def
      services_scenario_def truthy_def exactScore_chat_rowHemorragie [OF assms])

lemma scenario_text:
  assumes "latin1Case rt"
  shows "textResults_chat rt services_scenario queryHemorragie queryHemorragie None = Inr []"
  by (simp add: textResults_chat_def allKeywordsOf_queryHemorragie [OF assms] bindE_def
      services_scenario_def truthy_def str_def)

lemma bindE_Inr: "bindE m f = Inr r \<Longrightarrow> \<exists>x. m = Inr x \<and> f x = Inr r"
  by (cases m) (simp_all add: bindE_def)

lemma searchBody_chat_Inr:
  assumes "searchBody_chat rt sv query originalQuery sourceFilter = Inr r"
  shows "\<exists>ds. r = finish_chat rt sourceFilter ds"
proof -
  from assms obtain v where
    1: "bindE (exactPhraseResults_chat rt sv originalQuery sourceFilter) (\<lambda>exactPhraseRes.
        bindE (textResults_chat rt sv query originalQuery sourceFilter) (\<lambda>textRes.
          Inr (finish_chat rt sourceFilter (exactPhraseRes @ v @ textRes)))) = Inr r"
    unfolding searchBody_chat_def by (blast dest: bindE_Inr)
  then obtain e where
    2: "bindE (textResults_chat rt sv query originalQuery sourceFilter) (\<lambda>textRes.
          Inr (finish_chat rt sourceFilter (e @ v @ textRes))) = Inr r"
    by (blast dest: bindE_Inr)
  then obtain t where
    "Inr (finish_chat rt sourceFilter (e @ v @ t)) = (Inr r :: exn + DocumentMatch list)"
    by (blast dest: bindE_Inr)
  then show ?thesis by blast
qed

lemma searchBody_gated_Inr:
  assumes "searchBody_gated cfg rt sv query originalQuery sourceFilter = Inr r"
  shows "\<exists>ds. r = finish_gated cfg rt originalQuery sourceFilter ds"
proof -
  from assms obtain v where
    1: "bindE (exactResults cfg rt sv originalQuery sourceFilter) (\<lambda>exactRes.
          Inr (finish_gated cfg rt originalQuery sourceFilter (exactRes @ v))) = Inr r"
    unfolding searchBody_gated_def by (blast dest: bindE_Inr)
  then obtain e where
    "Inr (finish_gated cfg rt originalQuery sourceFilter (e @ v)) =
       (Inr r :: exn + DocumentMatch list)"
    by (blast dest: bindE_Inr)
  then show ?thesis by blast
qed

lemma searchDocuments_chat_cases:
  "searchDocuments_chat rt sv query originalQuery sourceFilter = [] \<or>
   (\<exists>ds. searchDocuments_chat rt sv query originalQuery sourceFilter =
      finish_chat rt sourceFilter ds)"
proof (cases "searchBody_chat rt sv query originalQuery sourceFilter")
  case (Inl e)
  then show ?thesis by (simp add: searchDocuments_chat_def)
next
  case (Inr r)
  with searchBody_chat_Inr [OF Inr] show ?thesis by (auto simp: searchDocuments_chat_def)
qed

lemma searchDocuments_gated_cases:
  "searchDocuments_gated cfg rt sv query originalQuery sourceFilter = [] \<or>
   (\<exists>ds. searchDocuments_gated cfg rt sv query originalQuery sourceFilter =
      finish_gated cfg rt originalQuery sourceFilter ds)"
proof (cases "searchBody_gated cfg rt sv query originalQuery sourceFilter")
  case (Inl e)
  then show ?thesis by (simp add: searchDocuments_gated_def)
next
  case (Inr r)
  with searchBody_gated_Inr [OF Inr] show ?thesis by (auto simp: searchDocuments_gated_def)
qed

lemma searchDocuments_chat_eq:
  assumes "vectorResults sv (dbl 0.15) 15 query = Inr vectorRes"
      and "exactPhraseResults_chat rt sv originalQuery sourceFilter = Inr exactRes"
      and "textResults_chat rt sv query originalQuery sourceFilter = Inr textRes"
  shows "searchDocuments_chat rt sv query originalQuery sourceFilter =
           finish_chat rt sourceFilter (exactRes @ vectorRes @ textRes)"
  unfolding searchDocuments_chat_def searchBody_chat_def assms
  by (simp add: bindE_def)

lemma finish_chat_scenario:
  "finish_chat rt None ([docHemorragie] @ [docHemorragie\<lparr>similarity := dbl 0.3\<rparr>, docPlain] @ []) =
     [docHemorragie, docPlain]"
proof -
  have c: "combineResults {}
      ([docHemorragie] @ [docHemorragie\<lparr>similarity := dbl 0.3\<rparr>, docPlain] @ []) =
      [docHemorragie, docPlain]"
    by (simp add: docHemorragie_def docPlain_def)
  have "similarity docPlain \<le> similarity docHemorragie"
    using dbl_order(2) by (simp add: docHemorragie_def docPlain_def)
  then have s: "sortBySimilarity [docHemorragie, docPlain] = [docHemorragie, docPlain]"
    by (rule sortBySimilarity_pair)
  show ?thesis
    unfolding finish_chat_def c by (simp add: filterBySource_def truthy_def s)
qed

lemma scenario_output:
  assumes "latin1Case rt"
  shows "searchDocuments_chat rt services_scenario queryHemorragie queryHemorragie None =
     [docHemorragie, docPlain]"
  unfolding searchDocuments_chat_eq
    [OF scenario_vector scenario_exact [OF assms] scenario_text [OF assms]]
  by (rule finish_chat_scenario)

text \<open>
  C2. In the search of the chat endpoint, let the three passes return \<open>exactRes\<close> (the
  lexical pass), \<open>vectorRes\<close> and \<open>textRes\<close>, and let \<open>d0\<close> be the first record of the lexical
  pass with identity \<open>x\<close>. Then the merged, deduplicated sequence holds identity \<open>x\<close> exactly
  once, as \<open>d0\<close> with its lexical score, whatever score a later duplicate has; and the
  final output holds identity \<open>x\<close> at most once, and then as \<open>d0\<close>. This holds for every
  case conversion of the runtime. In the scenario (lexical hit 7, scored 0.85; vector hits
  7 at 0.30 and 9 at 0.60) the output is 7 at 0.85, then 9 at 0.60, the scores being the
  doubles of these literals, on every runtime that converts the Latin-1 alphabet as
  Unicode does.
\<close>

theorem merge_precedence_chat:
  assumes "vectorResults sv (dbl 0.15) 15 query = Inr vectorRes"
      and "exactPhraseResults_chat rt sv originalQuery sourceFilter = Inr exactRes"
      and "textResults_chat rt sv query originalQuery sourceFilter = Inr textRes"
      and "find (\<lambda>d. doc_id d = x) exactRes = Some d0"
  shows "filter (\<lambda>d. doc_id d = x) (combineResults {} (exactRes @ vectorRes @ textRes)) = [d0] \<and>
         filter (\<lambda>d. doc_id d = x) (searchDocuments_chat rt sv query originalQuery sourceFilter) =
           (if d0 \<in> set (searchDocuments_chat rt sv query originalQuery sourceFilter)
            then [d0] else []) \<and>
         (latin1Case rt' \<longrightarrow>
          map (\<lambda>d. (doc_id d, similarity d))
            (searchDocuments_chat rt' services_scenario queryHemorragie queryHemorragie None) =
            [(7, dbl 0.85), (9, dbl 0.6)])"
proof (intro conjI impI)
  show "filter (\<lambda>d. doc_id d = x) (combineResults {} (exactRes @ vectorRes @ textRes)) = [d0]"
    by (rule merge_precedence(1) [OF assms(4)])
  show "filter (\<lambda>d. doc_id d = x) (searchDocuments_chat rt sv query originalQuery sourceFilter) =
           (if d0 \<in> set (searchDocuments_chat rt sv query originalQuery sourceFilter)
            then [d0] else [])"
    unfolding searchDocuments_chat_eq [OF assms(1-3)]
    by (rule merge_precedence(2) [OF assms(4)])
next
  assume l: "latin1Case rt'"
  show "map (\<lambda>d. (doc_id d, similarity d))
           (searchDocuments_chat rt' services_scenario queryHemorragie queryHemorragie None) =
           [(7, dbl 0.85), (9, dbl 0.6)]"
    unfolding scenario_output [OF l] by (simp add: docHemorragie_def docPlain_def)
qed

theorem merge_precedence_chat_witness:
  "filter (\<lambda>d. doc_id d = 7)
     (combineResults {} ([docHemorragie] @ [docHemorragie\<lparr>similarity := dbl 0.3\<rparr>, docPlain] @ [])) =
     [docHemorragie] \<and>
   filter (\<lambda>d. doc_id d = 7)
     (searchDocuments_chat runtimeLatin1 services_scenario queryHemorragie queryHemorragie None) =
     [docHemorragie] \<and>
   similarity docHemorragie = dbl 0.85 \<and>
   map (\<lambda>d. (doc_id d, similarity d))
     (searchDocuments_chat runtimeLatin1 services_scenario queryHemorragie queryHemorragie None) =
     [(7, dbl 0.85), (9, dbl 0.6)]"
proof -
  note l = runtimeLatin1_latin1Case
  have h: "find (\<lambda>d. doc_id d = 7) [docHemorragie] = Some docHemorragie"
    by (simp add: docHemorragie_def)
  note t = merge_precedence_chat
    [OF scenario_vector scenario_exact [OF l] scenario_text [OF l] h, of runtimeLatin1]
  have m: "docHemorragie \<in> set (searchDocuments_chat runtimeLatin1 services_scenario
      queryHemorragie queryHemorragie None)"
    by (simp only: scenario_output [OF l] list.set insertI1)
  from t have 1: "filter (\<lambda>d. doc_id d = 7)
     (combineResults {} ([docHemorragie] @ [docHemorragie\<lparr>similarity := dbl 0.3\<rparr>, docPlain] @ [])) =
     [docHemorragie]"
    by (rule conjunct1)
  from t have "filter (\<lambda>d. doc_id d = 7)
     (searchDocuments_chat runtimeLatin1 services_scenario queryHemorragie queryHemorragie None) =
     (if docHemorragie \<in> set (searchDocuments_chat runtimeLatin1 services_scenario
        queryHemorragie queryHemorragie None)
      then [docHemorragie] else [])"
    by (rule conjunct1 [OF conjunct2])
  with m have 2: "filter (\<lambda>d. doc_id d = 7)
     (searchDocuments_chat runtimeLatin1 services_scenario queryHemorragie queryHemorragie None) =
     [docHemorragie]"
    by (simp only: if_True)
  have 3: "similarity docHemorragie = dbl 0.85"
    by (simp add: docHemorragie_def)
  from t l have 4: "map (\<lambda>d. (doc_id d, similarity d))
     (searchDocuments_chat runtimeLatin1 services_scenario queryHemorragie queryHemorragie None) =
     [(7, dbl 0.85), (9, dbl 0.6)]"
    by blast
  from 1 2 3 4 show ?thesis by (intro conjI)
qed

text \<open>
  C8. Whatever the services answer and whatever the runtime's case conversion, and for
  every technical query, original query and optional source filter, the sequence
  \<open>searchDocuments\<close> returns has at most K records and is in decreasing order of
  similarity: K is 8 in the chat endpoint, and the configured \<open>topK\<close> in the fiche
  endpoints (6 and 5).
\<close>

theorem topK_sorted:
  "length (searchDocuments_chat rt sv query originalQuery sourceFilter) \<le> 8 \<and>
   sorted_wrt (\<lambda>a b. similarity b \<le> similarity a)
     (searchDocuments_chat rt sv query originalQuery sourceFilter) \<and>
   length (searchDocuments_gated cfg rt sv query originalQuery sourceFilter) \<le> topK cfg \<and>
   sorted_wrt (\<lambda>a b. similarity b \<le> similarity a)
     (searchDocuments_gated cfg rt sv query originalQuery sourceFilter) \<and>
   topK config_search = 6 \<and> topK config_fiches = 5"
proof -
  have c: "length (searchDocuments_chat rt sv query originalQuery sourceFilter) \<le> 8 \<and>
     sorted_wrt (\<lambda>a b. similarity b \<le> similarity a)
       (searchDocuments_chat rt sv query originalQuery sourceFilter)"
    using searchDocuments_chat_cases [of rt sv query originalQuery sourceFilter]
    by (auto simp: finish_chat_def take_sorted_desc)
  have g: "length (searchDocuments_gated cfg rt sv query originalQuery sourceFilter) \<le> topK cfg \<and>
     sorted_wrt (\<lambda>a b. similarity b \<le> similarity a)
       (searchDocuments_gated cfg rt sv query originalQuery sourceFilter)"
    using searchDocuments_gated_cases [of cfg rt sv query originalQuery sourceFilter]
    by (auto simp: finish_gated_def take_sorted_desc)
  have k: "topK config_search = 6 \<and> topK config_fiches = 5"
    by (simp add: config_search_def config_fiches_def)
  from c g k show ?thesis by simp
qed

lemma sourceMatches_PSC:
  assumes "latin1Case rt"
  shows "sourceMatches rt (str ''PSC'') docPSC" "\<not> sourceMatches rt (str ''PSC'') docPlain"
    "sourceMatches rt (str ''psc'') docPSC" "\<not> sourceMatches rt (str ''psc'') docPlain"
  unfolding sourceMatches_def
    latin1Case_upper [OF assms plain_sources(1)] latin1Case_upper [OF assms plain_sources(2)]
    latin1Case_upper [OF assms plain_sources(3)] latin1Case_upper [OF assms plain_sources(4)]
  by (simp_all add: docPSC_def docPlain_def str_def upperUnit_def)

lemma PSC_passes:
  assumes "latin1Case rt"
  shows "vectorResults services_PSC (dbl 0.15) 15 queryHemorragie = Inr [docPlain, docPSC]"
    "exactPhraseResults_chat rt services_PSC queryHemorragie f = Inr []"
    "textResults_chat rt services_PSC queryHemorragie queryHemorragie f = Inr []"
  by (simp_all add: vectorResults_def exactPhraseResults_chat_def textResults_chat_def
      keyWords_chat_queryHemorragie [OF assms] allKeywordsOf_queryHemorragie [OF assms]
      bindE_def services_PSC_def)

lemma PSC_output:
  assumes "latin1Case rt"
  shows "searchDocuments_chat rt services_PSC queryHemorragie queryHemorragie (Some (str ''PSC'')) =
     [docPSC]"
    "searchDocuments_chat rt services_PSC queryHemorragie queryHemorragie (Some (str ''psc'')) =
     [docPSC]"
proof -
  have c: "combineResults {} ([] @ [docPlain, docPSC] @ []) = [docPlain, docPSC]"
    by (simp add: docPlain_def docPSC_def)
  have t: "truthy (Some (str ''PSC'')) = Some (str ''PSC'')"
    "truthy (Some (str ''psc'')) = Some (str ''psc'')"
    by (simp_all add: truthy_def str_def)
  show "searchDocuments_chat rt services_PSC queryHemorragie queryHemorragie (Some (str ''PSC'')) =
     [docPSC]"
    unfolding searchDocuments_chat_eq [OF PSC_passes [OF assms]] finish_chat_def c
      filterBySource_def t
    by (simp add: sourceMatches_PSC [OF assms] sortBySimilarity_def)
  show "searchDocuments_chat rt services_PSC queryHemorragie queryHemorragie (Some (str ''psc'')) =
     [docPSC]"
    unfolding searchDocuments_chat_eq [OF PSC_passes [OF assms]] finish_chat_def c
      filterBySource_def t
    by (simp add: sourceMatches_PSC [OF assms] sortBySimilarity_def)
qed

text \<open>
  C9. With a source filter \<open>f\<close> (an empty filter counts as none, and then nothing is
  dropped), every record of the output of the chat endpoint's search has a source whose
  upper-cased name contains the upper-cased filter, and no record whose source lacks it is
  in the output. On a runtime that converts the Latin-1 alphabet as Unicode does, and for
  a name and a filter made of ASCII characters, this test is the case-insensitive
  substring of the specification. With the filter \<open>PSC\<close>, and also with the filter \<open>psc\<close>, a
  record of \<open>Referentiel_PSC1.pdf\<close> is retained and one of \<open>Guide_SST.pdf\<close> is not.
\<close>

theorem category_filter_chat:
  assumes "f \<noteq> [] \<or> toUpperCase rt [] = []"
  shows "list_all (\<lambda>r. str_includes (toUpperCase rt (source r)) (toUpperCase rt f))
           (searchDocuments_chat rt sv query originalQuery (Some f)) \<and>
         (\<not> str_includes (toUpperCase rt (source d)) (toUpperCase rt f) \<longrightarrow>
            d \<notin> set (searchDocuments_chat rt sv query originalQuery (Some f))) \<and>
         (latin1Case rt \<and> list_all (\<lambda>c. c < 128) (source d) \<and> list_all (\<lambda>c. c < 128) f \<longrightarrow>
            str_includes (toUpperCase rt (source d)) (toUpperCase rt f) =
              includesIgnoringCase (source d) f) \<and>
         (latin1Case rt \<longrightarrow>
            searchDocuments_chat rt services_PSC queryHemorragie queryHemorragie
              (Some (str ''PSC'')) = [docPSC] \<and>
            searchDocuments_chat rt services_PSC queryHemorragie queryHemorragie
              (Some (str ''psc'')) = [docPSC] \<and>
            source docPSC = str ''Referentiel_PSC1.pdf'' \<and>
            source docPlain = str ''Guide_SST.pdf'' \<and>
            vectorResults services_PSC (dbl 0.15) 15 queryHemorragie = Inr [docPlain, docPSC])"
proof -
  have a: "list_all (\<lambda>r. str_includes (toUpperCase rt (source r)) (toUpperCase rt f))
           (searchDocuments_chat rt sv query originalQuery (Some f))"
    using searchDocuments_chat_cases [of rt sv query originalQuery "Some f"]
  proof
    assume "searchDocuments_chat rt sv query originalQuery (Some f) = []"
    then show ?thesis by simp
  next
    assume "\<exists>ds. searchDocuments_chat rt sv query originalQuery (Some f) =
      finish_chat rt (Some f) ds"
    then obtain ds where
      e: "searchDocuments_chat rt sv query originalQuery (Some f) = finish_chat rt (Some f) ds" ..
    have "set (finish_chat rt (Some f) ds) \<subseteq>
        set (filterBySource rt (Some f) (combineResults {} ds))"
      by (rule finish_chat_subset)
    moreover have "list_all (sourceMatches rt f)
        (filterBySource rt (Some f) (combineResults {} ds))"
      by (rule filterBySource_all [OF assms])
    ultimately show ?thesis
      unfolding e list_all_iff sourceMatches_def by blast
  qed
  have b: "\<not> str_includes (toUpperCase rt (source d)) (toUpperCase rt f) \<longrightarrow>
      d \<notin> set (searchDocuments_chat rt sv query originalQuery (Some f))"
    using a unfolding list_all_iff by blast
  have c: "latin1Case rt \<and> list_all (\<lambda>c. c < 128) (source d) \<and> list_all (\<lambda>c. c < 128) f \<longrightarrow>
            str_includes (toUpperCase rt (source d)) (toUpperCase rt f) =
              includesIgnoringCase (source d) f"
    by (simp add: upper_includes_ascii)
  have s: "source docPSC = str ''Referentiel_PSC1.pdf'' \<and> source docPlain = str ''Guide_SST.pdf''"
    by (simp add: docPSC_def docPlain_def)
  have e: "latin1Case rt \<longrightarrow>
            searchDocuments_chat rt services_PSC queryHemorragie queryHemorragie
              (Some (str ''PSC'')) = [docPSC] \<and>
            searchDocuments_chat rt services_PSC queryHemorragie queryHemorragie
              (Some (str ''psc'')) = [docPSC] \<and>
            source docPSC = str ''Referentiel_PSC1.pdf'' \<and>
            source docPlain = str ''Guide_SST.pdf'' \<and>
            vectorResults services_PSC (dbl 0.15) 15 queryHemorragie = Inr [docPlain, docPSC]"
    using PSC_output PSC_passes(1) s by blast
  from a b c e show ?thesis by (intro conjI)
qed

theorem category_filter_chat_witness:
  "str ''psc'' \<noteq> [] \<and> latin1Case runtimeLatin1 \<and>
   list_all (\<lambda>c. c < 128) (source docPlain) \<and> list_all (\<lambda>c. c < 128) (str ''psc'') \<and>
   \<not> includesIgnoringCase (source docPlain) (str ''psc'') \<and>
   \<not> str_includes (toUpperCase runtimeLatin1 (source docPlain))
       (toUpperCase runtimeLatin1 (str ''psc'')) \<and>
   docPlain \<notin> set (searchDocuments_chat runtimeLatin1 services_PSC queryHemorragie
     queryHemorragie (Some (str ''psc''))) \<and>
   searchDocuments_chat runtimeLatin1 services_PSC queryHemorragie queryHemorragie
     (Some (str ''psc'')) = [docPSC] \<and>
   searchDocuments_chat runtimeLatin1 services_PSC queryHemorragie queryHemorragie
     (Some (str ''PSC'')) = [docPSC] \<and>
   list_all (\<lambda>r. str_includes (toUpperCase runtimeLatin1 (source r))
       (toUpperCase runtimeLatin1 (str ''psc'')))
     (searchDocuments_chat runtimeLatin1 services_PSC queryHemorragie queryHemorragie
       (Some (str ''psc'')))"
proof -
  note l = runtimeLatin1_latin1Case
  have n: "str ''psc'' \<noteq> []" by (simp add: str_def)
  then have n': "str ''psc'' \<noteq> [] \<or> toUpperCase runtimeLatin1 [] = []" ..
  note t = category_filter_chat [OF n', of services_PSC queryHemorragie queryHemorragie docPlain]
  have p: "list_all (\<lambda>c. c < 128) (source docPlain)" "list_all (\<lambda>c. c < 128) (str ''psc'')"
    by (simp_all add: docPlain_def str_def)
  have i: "\<not> includesIgnoringCase (source docPlain) (str ''psc'')"
    by (simp add: docPlain_def str_def canonUnit_def)
  from t l p have "str_includes (toUpperCase runtimeLatin1 (source docPlain))
       (toUpperCase runtimeLatin1 (str ''psc'')) =
     includesIgnoringCase (source docPlain) (str ''psc'')"
    by blast
  with i have u: "\<not> str_includes (toUpperCase runtimeLatin1 (source docPlain))
       (toUpperCase runtimeLatin1 (str ''psc''))"
    by simp
  from t u have o: "docPlain \<notin> set (searchDocuments_chat runtimeLatin1 services_PSC
      queryHemorragie queryHemorragie (Some (str ''psc'')))"
    by blast
  from t l have e1: "searchDocuments_chat runtimeLatin1 services_PSC queryHemorragie
      queryHemorragie (Some (str ''psc'')) = [docPSC]"
    by blast
  from t l have e2: "searchDocuments_chat runtimeLatin1 services_PSC queryHemorragie
      queryHemorragie (Some (str ''PSC'')) = [docPSC]"
    by blast
  from t have a: "list_all (\<lambda>r. str_includes (toUpperCase runtimeLatin1 (source r))
       (toUpperCase runtimeLatin1 (str ''psc'')))
     (searchDocuments_chat runtimeLatin1 services_PSC queryHemorragie queryHemorragie
       (Some (str ''psc'')))"
    by (rule conjunct1)
  from n l p i u o e1 e2 a show ?thesis by (intro conjI)
qed

section \<open>Relevance gating\<close>

lemma combineGated_map:
  "combineGated rt rks seen ds = map (gate rt rks) (combineResults seen ds)"
  by (induction ds arbitrary: seen) auto

lemma searchDocuments_gated_eq:
  assumes "vectorResults sv (matchThreshold cfg) (matchCount cfg) query = Inr vectorRes"
      and "exactResults cfg rt sv originalQuery sourceFilter = Inr exactRes"
  shows "searchDocuments_gated cfg rt sv query originalQuery sourceFilter =
           finish_gated cfg rt originalQuery sourceFilter (exactRes @ vectorRes)"
  unfolding searchDocuments_gated_def searchBody_gated_def assms
  by (simp add: bindE_def)

lemma gate_penalty:
  "\<not> isOnTopic rt rks d \<Longrightarrow> similarity d < dbl 0.9 \<Longrightarrow>
   similarity (gate rt rks d) = fmul (similarity d) (dbl 0.4)"
  by (simp add: gate_def)

lemma gate_frame:
  "doc_id (gate rt rks d) = doc_id d \<and> content (gate rt rks d) = content d \<and>
   source (gate rt rks d) = source d \<and> fiche_ref (gate rt rks d) = fiche_ref d"
  by (simp add: gate_def)

text \<open>
  The threshold is the double of the literal \<open>0.9\<close>, and a score is a double too: a lexical
  hit of the second fiche endpoint that contains four keywords out of five has a score
  below the threshold, and is penalised when its title is off topic.
\<close>

lemma gate_fourOfFive:
  assumes "\<not> isOnTopic rt rks d"
      and "similarity d = fadd (dbl 0.7) (fmul (fdiv 4 5) (dbl 0.25))"
  shows "similarity (gate rt rks d) = fmul (similarity d) (dbl 0.4)"
proof -
  have "similarity d < dbl 0.9"
    unfolding assms(2) by (rule dbl_examples(5))
  with assms(1) show ?thesis by (rule gate_penalty)
qed

lemma keyWords_queryGarrot:
  assumes "latin1Case rt"
  shows "keyWords rt queryGarrot =
     map str [''hemorragie'', ''externe'', ''garrot'', ''compression'', ''plaie'']"
    and "relevanceKeywords rt queryGarrot =
     map str [''hemorragie'', ''externe'', ''garrot'', ''compression'', ''plaie'']"
  unfolding keyWords_def relevanceKeywords_def wordsLongerThan_def
    latin1Case_lower [OF assms plain_queryGarrot]
  by (simp_all add: queryGarrot_def str_def lowerUnit_def isWhiteSpace_def stopWords_def)

lemma exactScore_rowGarrot:
  assumes "latin1Case rt"
  shows "exactScore config_fiches rt (keyWords rt queryGarrot) rowGarrot =
      withSimilarity rowGarrot (fadd (dbl 0.7) (fmul (fdiv 4 5) (dbl 0.25)))"
proof -
  have m: "length (filter (\<lambda>k. str_includes (map lowerUnit (row_content rowGarrot)) k)
      (map str [''hemorragie'', ''externe'', ''garrot'', ''compression'', ''plaie''])) = 4"
    by (simp add: rowGarrot_def str_def lowerUnit_def)
  have n: "length (map str [''hemorragie'', ''externe'', ''garrot'', ''compression'',
      ''plaie'']) = 5"
    by simp
  have c: "baseScore config_fiches = dbl 0.7" "bonusScore config_fiches = dbl 0.25"
    by (simp_all add: config_fiches_def)
  show ?thesis
    unfolding exactScore_def Let_def keyWords_queryGarrot(1) [OF assms]
      latin1Case_lower [OF assms plain_rowGarrot(1)] m n c
    by simp
qed

lemma garrot_passes:
  assumes "latin1Case rt"
  shows "vectorResults services_garrot (matchThreshold config_fiches) (matchCount config_fiches)
      queryGarrot = Inr []"
    and "exactResults config_fiches rt services_garrot queryGarrot None =
      Inr [withSimilarity rowGarrot (fadd (dbl 0.7) (fmul (fdiv 4 5) (dbl 0.25)))]"
proof -
  show "vectorResults services_garrot (matchThreshold config_fiches) (matchCount config_fiches)
      queryGarrot = Inr []"
    by (simp add: vectorResults_def bindE_def services_garrot_def)
  have "1 \<le> length (keyWords rt queryGarrot)"
    by (simp add: keyWords_queryGarrot(1) [OF assms])
  then show "exactResults config_fiches rt services_garrot queryGarrot None =
      Inr [withSimilarity rowGarrot (fadd (dbl 0.7) (fmul (fdiv 4 5) (dbl 0.25)))]"
    by (simp add: exactResults_def Let_def bindE_def services_garrot_def
        exactScore_rowGarrot [OF assms])
qed

lemma title_rowGarrot:
  assumes "latin1Case rt"
  shows "extractDocumentTitle rt (row_content rowGarrot) = str ''fiche 12''"
  unfolding extractDocumentTitle_def latin1Case_lower [OF assms plain_rowGarrot(2)]
  by (simp add: rowGarrot_def firstLine_def str_def lowerUnit_def titleAt_def canonUnit_def)

lemma gate_rowGarrot:
  assumes "latin1Case rt"
  shows "gate rt (relevanceKeywords rt queryGarrot)
      (withSimilarity rowGarrot (fadd (dbl 0.7) (fmul (fdiv 4 5) (dbl 0.25)))) =
    withSimilarity rowGarrot (dbl 0.36)"
proof -
  define x where "x = fadd (dbl 0.7) (fmul (fdiv 4 5) (dbl 0.25))"
  have c: "content (withSimilarity rowGarrot x) = row_content rowGarrot"
    and s: "similarity (withSimilarity rowGarrot x) = x"
    by (simp_all add: withSimilarity_def)
  have o: "\<not> isOnTopic rt (relevanceKeywords rt queryGarrot) (withSimilarity rowGarrot x)"
    unfolding isOnTopic_def c title_rowGarrot [OF assms] keyWords_queryGarrot(2) [OF assms]
    by (simp add: str_def)
  have l: "x < dbl 0.9" unfolding x_def by (rule dbl_examples(5))
  have p: "fmul x (dbl 0.4) = dbl 0.36" unfolding x_def by (rule fourOfFive_penalty)
  have "gate rt (relevanceKeywords rt queryGarrot) (withSimilarity rowGarrot x) =
      (withSimilarity rowGarrot x)\<lparr>similarity := dbl 0.36\<rparr>"
    unfolding gate_def s p using o l by (simp only: simp_thms if_True)
  also have "\<dots> = withSimilarity rowGarrot (dbl 0.36)"
    by (simp add: withSimilarity_def)
  finally show ?thesis unfolding x_def .
qed

lemma garrot_output:
  assumes "latin1Case rt"
  shows "searchDocuments_gated config_fiches rt services_garrot queryGarrot queryGarrot None =
     [withSimilarity rowGarrot (dbl 0.36)]"
proof -
  have c: "combineGated rt (relevanceKeywords rt queryGarrot) {}
      ([withSimilarity rowGarrot (fadd (dbl 0.7) (fmul (fdiv 4 5) (dbl 0.25)))] @ []) =
      [withSimilarity rowGarrot (dbl 0.36)]"
    unfolding combineGated_map by (simp only: append_Nil2 combineResults.simps empty_iff
        if_False list.map gate_rowGarrot [OF assms])
  show ?thesis
    unfolding searchDocuments_gated_eq [OF garrot_passes [OF assms]] finish_gated_def c
    by (simp add: filterBySource_def truthy_def sortBySimilarity_def config_fiches_def)
qed

text \<open>
  C3 (amended). In the fiche endpoints, when both passes return, the output is the cut at
  \<open>topK\<close> of the sorted, source-filtered sequence of the merged records, each passed
  through \<open>gate\<close>, which changes the similarity only. The keywords of the gate are all the
  words of the lower-cased original query longer than 4 characters: no stop word is
  removed from them. For a merged record whose title contains none of these words and
  whose similarity is below the double of the literal 0.9, the final similarity is the
  product, rounded to a double, of the raw one and of the double of the literal 0.4; a
  record that has such a word in its title, or a similarity that is not below the
  threshold, is left as it is. At the raw similarity 0.5 the final similarity is 0.5 times
  the penalty factor exactly, which is the double of the literal 0.2, and it is strictly
  less than the raw one. All of this holds for every case conversion of the runtime. On a
  runtime that converts the Latin-1 alphabet as Unicode does, the lexical hit of the
  second fiche endpoint that has four keywords out of five under an off-topic first line
  is scored \<open>0.7 + (4 / 5) * 0.25\<close>, a double below the threshold, and comes out of the
  search with the similarity 0.36.
\<close>

theorem relevance_gating:
  assumes "vectorResults sv (matchThreshold cfg) (matchCount cfg) query = Inr vectorRes"
      and "exactResults cfg rt sv originalQuery sourceFilter = Inr exactRes"
  shows "searchDocuments_gated cfg rt sv query originalQuery sourceFilter =
           take (topK cfg) (sortBySimilarity (filterBySource rt sourceFilter
             (map (gate rt (relevanceKeywords rt originalQuery))
               (combineResults {} (exactRes @ vectorRes))))) \<and>
         relevanceKeywords rt originalQuery =
           filter (\<lambda>w. 4 < length w) (splitWs (toLowerCase rt originalQuery)) \<and>
         doc_id (gate rt (relevanceKeywords rt originalQuery) d) = doc_id d \<and>
         content (gate rt (relevanceKeywords rt originalQuery) d) = content d \<and>
         source (gate rt (relevanceKeywords rt originalQuery) d) = source d \<and>
         (\<not> list_ex (\<lambda>k. str_includes (extractDocumentTitle rt (content d)) k)
               (relevanceKeywords rt originalQuery) \<and> similarity d < dbl 0.9 \<longrightarrow>
            similarity (gate rt (relevanceKeywords rt originalQuery) d) =
              fmul (similarity d) (dbl 0.4)) \<and>
         (list_ex (\<lambda>k. str_includes (extractDocumentTitle rt (content d)) k)
               (relevanceKeywords rt originalQuery) \<or> dbl 0.9 \<le> similarity d \<longrightarrow>
            gate rt (relevanceKeywords rt originalQuery) d = d) \<and>
         (\<not> list_ex (\<lambda>k. str_includes (extractDocumentTitle rt (content d)) k)
               (relevanceKeywords rt originalQuery) \<and> similarity d = 0.5 \<longrightarrow>
            similarity (gate rt (relevanceKeywords rt originalQuery) d) = 0.5 * dbl 0.4 \<and>
            similarity (gate rt (relevanceKeywords rt originalQuery) d) = dbl 0.2 \<and>
            similarity (gate rt (relevanceKeywords rt originalQuery) d) < similarity d) \<and>
         (latin1Case rt' \<longrightarrow>
            exactResults config_fiches rt' services_garrot queryGarrot None =
              Inr [withSimilarity rowGarrot (fadd (dbl 0.7) (fmul (fdiv 4 5) (dbl 0.25)))] \<and>
            fadd (dbl 0.7) (fmul (fdiv 4 5) (dbl 0.25)) < dbl 0.9 \<and>
            searchDocuments_gated config_fiches rt' services_garrot queryGarrot queryGarrot
              None = [withSimilarity rowGarrot (dbl 0.36)])"
proof (intro conjI impI)
  show "searchDocuments_gated cfg rt sv query originalQuery sourceFilter =
           take (topK cfg) (sortBySimilarity (filterBySource rt sourceFilter
             (map (gate rt (relevanceKeywords rt originalQuery))
               (combineResults {} (exactRes @ vectorRes)))))"
    unfolding searchDocuments_gated_eq [OF assms]
    by (simp only: finish_gated_def combineGated_map)
  show "relevanceKeywords rt originalQuery =
           filter (\<lambda>w. 4 < length w) (splitWs (toLowerCase rt originalQuery))"
    by (simp add: relevanceKeywords_def wordsLongerThan_def)
  show "doc_id (gate rt (relevanceKeywords rt originalQuery) d) = doc_id d"
    and "content (gate rt (relevanceKeywords rt originalQuery) d) = content d"
    and "source (gate rt (relevanceKeywords rt originalQuery) d) = source d"
    by (simp_all add: gate_frame)
next
  assume "\<not> list_ex (\<lambda>k. str_includes (extractDocumentTitle rt (content d)) k)
               (relevanceKeywords rt originalQuery) \<and> similarity d < dbl 0.9"
  then show "similarity (gate rt (relevanceKeywords rt originalQuery) d) =
      fmul (similarity d) (dbl 0.4)"
    by (simp add: gate_def isOnTopic_def)
next
  assume "list_ex (\<lambda>k. str_includes (extractDocumentTitle rt (content d)) k)
               (relevanceKeywords rt originalQuery) \<or> dbl 0.9 \<le> similarity d"
  then show "gate rt (relevanceKeywords rt originalQuery) d = d"
    by (auto simp: gate_def isOnTopic_def)
next
  assume a: "\<not> list_ex (\<lambda>k. str_includes (extractDocumentTitle rt (content d)) k)
               (relevanceKeywords rt originalQuery) \<and> similarity d = 0.5"
  then have o: "\<not> isOnTopic rt (relevanceKeywords rt originalQuery) d"
    by (simp add: isOnTopic_def)
  from a have s: "similarity d = 0.5" by (rule conjunct2)
  have "similarity d < dbl 0.9" unfolding s by (rule dbl_order(7))
  with o have g: "similarity (gate rt (relevanceKeywords rt originalQuery) d) =
      fmul 0.5 (dbl 0.4)"
    unfolding s [symmetric] by (rule gate_penalty)
  show "similarity (gate rt (relevanceKeywords rt originalQuery) d) = 0.5 * dbl 0.4"
    unfolding g by (rule half_penalty(1))
  show "similarity (gate rt (relevanceKeywords rt originalQuery) d) = dbl 0.2"
    unfolding g by (rule half_penalty(2))
  show "similarity (gate rt (relevanceKeywords rt originalQuery) d) < similarity d"
    unfolding g s by (rule half_penalty(3))
next
  assume l: "latin1Case rt'"
  show "exactResults config_fiches rt' services_garrot queryGarrot None =
      Inr [withSimilarity rowGarrot (fadd (dbl 0.7) (fmul (fdiv 4 5) (dbl 0.25)))]"
    by (rule garrot_passes(2) [OF l])
  show "fadd (dbl 0.7) (fmul (fdiv 4 5) (dbl 0.25)) < dbl 0.9"
    by (rule dbl_examples(5))
  show "searchDocuments_gated config_fiches rt' services_garrot queryGarrot queryGarrot
      None = [withSimilarity rowGarrot (dbl 0.36)]"
    by (rule garrot_output [OF l])
qed

lemma relevanceKeywords_queryHemorragie:
  assumes "latin1Case rt"
  shows "relevanceKeywords rt queryHemorragie =
     [str ''h'' @ [233] @ str ''morragie'', str ''externe'']"
  unfolding relevanceKeywords_def wordsLongerThan_def
    latin1Case_lower [OF assms plain_queryHemorragie]
  by (simp add: queryHemorragie_def str_def lowerUnit_def isWhiteSpace_def)

lemma keyWords_queryHemorragie:
  assumes "latin1Case rt"
  shows "keyWords rt queryHemorragie = [str ''h'' @ [233] @ str ''morragie'', str ''externe'']"
  unfolding keyWords_def latin1Case_lower [OF assms plain_queryHemorragie]
  by (simp add: queryHemorragie_def str_def lowerUnit_def isWhiteSpace_def stopWords_def)

lemma title_docPSC:
  assumes "latin1Case rt"
  shows "extractDocumentTitle rt (content docPSC) = str ''psc1 saignement abondant''"
  unfolding extractDocumentTitle_def latin1Case_lower [OF assms plain_title_docPSC]
  by (simp add: docPSC_def firstLine_def str_def lowerUnit_def titleAt_def canonUnit_def)

lemma offTopic_docPSC:
  assumes "latin1Case rt"
  shows "\<not> list_ex (\<lambda>k. str_includes (extractDocumentTitle rt (content docPSC)) k)
      (relevanceKeywords rt queryHemorragie)"
  unfolding title_docPSC [OF assms] relevanceKeywords_queryHemorragie [OF assms]
  by (simp add: str_def)

lemma PSC_vector_gated:
  "vectorResults services_PSC (matchThreshold config_search) (matchCount config_search)
     queryHemorragie = Inr [docPlain, docPSC]"
  by (simp add: vectorResults_def bindE_def services_PSC_def)

lemma PSC_exact_gated:
  assumes "latin1Case rt"
  shows "exactResults config_search rt services_PSC queryHemorragie None = Inr []"
  by (simp add: exactResults_def keyWords_queryHemorragie [OF assms] bindE_def services_PSC_def)

theorem relevance_gating_witness:
  "\<not> list_ex (\<lambda>k. str_includes (extractDocumentTitle runtimeLatin1 (content docPSC)) k)
      (relevanceKeywords runtimeLatin1 queryHemorragie) \<and>
   similarity docPSC = 0.5 \<and>
   similarity (gate runtimeLatin1 (relevanceKeywords runtimeLatin1 queryHemorragie) docPSC) =
     dbl 0.2 \<and>
   similarity (gate runtimeLatin1 (relevanceKeywords runtimeLatin1 queryHemorragie) docPSC) <
     similarity docPSC \<and>
   searchDocuments_gated config_search runtimeLatin1 services_PSC queryHemorragie
       queryHemorragie None =
     take (topK config_search) (sortBySimilarity (filterBySource runtimeLatin1 None
       (map (gate runtimeLatin1 (relevanceKeywords runtimeLatin1 queryHemorragie))
         (combineResults {} ([] @ [docPlain, docPSC]))))) \<and>
   searchDocuments_gated config_fiches runtimeLatin1 services_garrot queryGarrot queryGarrot
     None = [withSimilarity rowGarrot (dbl 0.36)]"
proof -
  note l = runtimeLatin1_latin1Case
  note t = relevance_gating [OF PSC_vector_gated PSC_exact_gated [OF l],
      where d = docPSC and rt' = runtimeLatin1]
  note o = offTopic_docPSC [OF l]
  have s: "similarity docPSC = 0.5" by (simp add: docPSC_def)
  from t have "\<not> list_ex (\<lambda>k. str_includes (extractDocumentTitle runtimeLatin1 (content docPSC)) k)
               (relevanceKeywords runtimeLatin1 queryHemorragie) \<and> similarity docPSC = 0.5 \<longrightarrow>
      similarity (gate runtimeLatin1 (relevanceKeywords runtimeLatin1 queryHemorragie) docPSC) =
        0.5 * dbl 0.4 \<and>
      similarity (gate runtimeLatin1 (relevanceKeywords runtimeLatin1 queryHemorragie) docPSC) =
        dbl 0.2 \<and>
      similarity (gate runtimeLatin1 (relevanceKeywords runtimeLatin1 queryHemorragie) docPSC) <
        similarity docPSC"
    by blast
  with o s have g: "similarity (gate runtimeLatin1 (relevanceKeywords runtimeLatin1
        queryHemorragie) docPSC) = dbl 0.2"
    and g': "similarity (gate runtimeLatin1 (relevanceKeywords runtimeLatin1
        queryHemorragie) docPSC) < similarity docPSC"
    by blast+
  from t have e: "searchDocuments_gated config_search runtimeLatin1 services_PSC queryHemorragie
       queryHemorragie None =
     take (topK config_search) (sortBySimilarity (filterBySource runtimeLatin1 None
       (map (gate runtimeLatin1 (relevanceKeywords runtimeLatin1 queryHemorragie))
         (combineResults {} ([] @ [docPlain, docPSC])))))"
    by (rule conjunct1)
  from t l have f: "searchDocuments_gated config_fiches runtimeLatin1 services_garrot
      queryGarrot queryGarrot None = [withSimilarity rowGarrot (dbl 0.36)]"
    by blast
  from o s g g' e f show ?thesis by (intro conjI)
qed

lemma keyWords_queryConduite:
  assumes "latin1Case rt"
  shows "keyWords rt queryConduite = [str ''hemorragie'']"
  unfolding keyWords_def latin1Case_lower [OF assms plain_queryConduite]
  by (simp add: queryConduite_def str_def lowerUnit_def isWhiteSpace_def stopWords_def)

lemma relevanceKeywords_queryConduite:
  assumes "latin1Case rt"
  shows "relevanceKeywords rt queryConduite = [str ''conduite'', str ''hemorragie'']"
  unfolding relevanceKeywords_def wordsLongerThan_def
    latin1Case_lower [OF assms plain_queryConduite]
  by (simp add: queryConduite_def str_def lowerUnit_def isWhiteSpace_def)

lemma title_docConduite:
  assumes "latin1Case rt"
  shows "extractDocumentTitle rt (content docConduite) = str ''conduite a tenir''"
  unfolding extractDocumentTitle_def latin1Case_lower [OF assms plain_title_docConduite]
  by (simp add: docConduite_def firstLine_def str_def lowerUnit_def titleAt_def canonUnit_def
      circled1_def circled2_def isWhiteSpace_def isLineTerminator_def trim_def Let_def)

lemma conduite_output:
  assumes "latin1Case rt"
  shows "searchDocuments_gated config_search rt services_conduite queryConduite queryConduite
     None = [docConduite]"
proof -
  have v: "vectorResults services_conduite (matchThreshold config_search)
      (matchCount config_search) queryConduite = Inr [docConduite]"
    by (simp add: vectorResults_def bindE_def services_conduite_def)
  have e: "exactResults config_search rt services_conduite queryConduite None = Inr []"
    by (simp add: exactResults_def keyWords_queryConduite [OF assms] bindE_def
        services_conduite_def)
  have g: "gate rt (relevanceKeywords rt queryConduite) docConduite = docConduite"
    unfolding gate_def isOnTopic_def title_docConduite [OF assms]
      relevanceKeywords_queryConduite [OF assms]
    by (simp add: str_def)
  show ?thesis
    unfolding searchDocuments_gated_eq [OF v e]
    by (simp add: finish_gated_def g filterBySource_def truthy_def sortBySimilarity_def
        config_search_def)
qed

text \<open>
  The claim as the specification words it fails: the significant words of the query are
  the words longer than 3 characters that are no stop words, and \<open>conduite\<close> is a stop
  word. For the query \<open>Conduite hemorragie\<close> the only significant word longer than 4
  characters is \<open>hemorragie\<close>; the title \<open>conduite a tenir\<close> does not contain it and the
  raw similarity is 0.5, yet the record keeps 0.5, since the gate counts \<open>conduite\<close>.
\<close>

theorem relevance_gating_counterexample:
  "filter (\<lambda>w. 4 < length w) (keyWords runtimeLatin1 queryConduite) = [str ''hemorragie''] \<and>
   extractDocumentTitle runtimeLatin1 (content docConduite) = str ''conduite a tenir'' \<and>
   \<not> str_includes (extractDocumentTitle runtimeLatin1 (content docConduite))
       (str ''hemorragie'') \<and>
   similarity docConduite = 0.5 \<and>
   similarity docConduite < dbl 0.9 \<and>
   map similarity
     (searchDocuments_gated config_search runtimeLatin1 services_conduite queryConduite
        queryConduite None) =
     [0.5]"
proof -
  note l = runtimeLatin1_latin1Case
  have 1: "filter (\<lambda>w. 4 < length w) (keyWords runtimeLatin1 queryConduite) =
      [str ''hemorragie'']"
    unfolding keyWords_queryConduite [OF l] by (simp add: str_def)
  have 3: "\<not> str_includes (extractDocumentTitle runtimeLatin1 (content docConduite))
       (str ''hemorragie'')"
    unfolding title_docConduite [OF l] by (simp add: str_def)
  have 4: "similarity docConduite = 0.5" by (simp add: docConduite_def)
  have 5: "similarity docConduite < dbl 0.9" unfolding 4 by (rule dbl_order(7))
  have 6: "map similarity
     (searchDocuments_gated config_search runtimeLatin1 services_conduite queryConduite
        queryConduite None) = [0.5]"
    unfolding conduite_output [OF l] by (simp add: docConduite_def)
  from 1 title_docConduite [OF l] 3 4 5 6 show ?thesis by (intro conjI)
qed

section \<open>The score of a lexical hit\<close>

lemma exactScore_similarity:
  "similarity (exactScore cfg rt kws doc) =
     fadd (baseScore cfg)
       (fmul (fdiv (real (length (filter (\<lambda>k. str_includes (toLowerCase rt (row_content doc)) k)
                      kws)))
                (real (length kws)))
          (bonusScore cfg))"
  by (simp add: exactScore_def withSimilarity_def Let_def)

lemma exactScore_content: "content (exactScore cfg rt kws doc) = row_content doc"
  by (simp add: exactScore_def withSimilarity_def Let_def)

lemma ratio_bounds:
  "0 \<le> real (length (filter P kws)) / real (length kws) \<and>
   real (length (filter P kws)) / real (length kws) \<le> 1"
proof -
  have "length (filter P kws) \<le> length kws" by (rule length_filter_le)
  then have "real (length (filter P kws)) \<le> real (length kws)" by simp
  then show ?thesis by (simp add: divide_le_eq_1)
qed

text \<open>
  The rounded score lies between the base and the rounded sum of the base and the bonus:
  every rounding is monotone.
\<close>

lemma score_bounds:
  assumes "0 \<le> q" "q \<le> 1" "0 \<le> base" "0 \<le> bonus"
  shows "dbl base \<le> fadd base (fmul (dbl q) bonus)"
    and "fadd base (fmul (dbl q) bonus) \<le> fadd base (dbl bonus)"
proof -
  have r0: "0 \<le> dbl q" using assms(1) by (rule dbl_nonneg)
  have "dbl q \<le> dbl 1" using assms(1,2) by (rule dbl_mono)
  then have r1: "dbl q \<le> 1" by (simp only: dbl_exact(2))
  have p0: "0 \<le> dbl q * bonus" using r0 assms(4) by simp
  have p1: "dbl q * bonus \<le> bonus" using assms(4) r0 r1 by (rule mult_left_le_one_le)
  have t0: "0 \<le> fmul (dbl q) bonus" unfolding fmul_def using p0 by (rule dbl_nonneg)
  have t1: "fmul (dbl q) bonus \<le> dbl bonus" unfolding fmul_def using p0 p1 by (rule dbl_mono)
  have b0: "base \<le> base + fmul (dbl q) bonus" using t0 by simp
  have b1: "0 \<le> base + fmul (dbl q) bonus" using t0 assms(3) by simp
  have b2: "base + fmul (dbl q) bonus \<le> base + dbl bonus" using t1 by simp
  show "dbl base \<le> fadd base (fmul (dbl q) bonus)"
    unfolding fadd_def using assms(3) b0 by (rule dbl_mono)
  show "fadd base (fmul (dbl q) bonus) \<le> fadd base (dbl bonus)"
    unfolding fadd_def using b1 b2 by (rule dbl_mono)
qed

lemma exactScore_bounds_search:
  "dbl 0.75 \<le> similarity (exactScore config_search rt kws r) \<and>
   similarity (exactScore config_search rt kws r) \<le> dbl 0.95"
proof -
  define q where "q = real (length (filter (\<lambda>k. str_includes (toLowerCase rt (row_content r)) k)
      kws)) / real (length kws)"
  have q: "0 \<le> q" "q \<le> 1"
    using ratio_bounds [of "\<lambda>k. str_includes (toLowerCase rt (row_content r)) k" kws]
    by (simp_all add: q_def)
  have c: "baseScore config_search = dbl 0.75" "bonusScore config_search = dbl 0.2"
    by (simp_all add: config_search_def)
  have e: "similarity (exactScore config_search rt kws r) =
      fadd (dbl 0.75) (fmul (dbl q) (dbl 0.2))"
    unfolding exactScore_similarity c fdiv_def q_def ..
  note b = score_bounds [OF q dbl_nonneg_literals(1) dbl_nonneg_literals(3),
      unfolded dbl_idem dbl_scores]
  from b show ?thesis unfolding e by (intro conjI)
qed

lemma exactScore_bounds_fiches:
  "dbl 0.7 \<le> similarity (exactScore config_fiches rt kws r) \<and>
   similarity (exactScore config_fiches rt kws r) \<le> dbl 0.95"
proof -
  define q where "q = real (length (filter (\<lambda>k. str_includes (toLowerCase rt (row_content r)) k)
      kws)) / real (length kws)"
  have q: "0 \<le> q" "q \<le> 1"
    using ratio_bounds [of "\<lambda>k. str_includes (toLowerCase rt (row_content r)) k" kws]
    by (simp_all add: q_def)
  have c: "baseScore config_fiches = dbl 0.7" "bonusScore config_fiches = dbl 0.25"
    by (simp_all add: config_fiches_def)
  have e: "similarity (exactScore config_fiches rt kws r) =
      fadd (dbl 0.7) (fmul (dbl q) (dbl 0.25))"
    unfolding exactScore_similarity c fdiv_def q_def ..
  note b = score_bounds [OF q dbl_nonneg_literals(2) dbl_nonneg_literals(4),
      unfolded dbl_idem dbl_scores]
  from b show ?thesis unfolding e by (intro conjI)
qed

lemma list_all_map_intro: "(\<And>x. P (f x)) \<Longrightarrow> list_all P (map f xs)"
  by (simp add: list_all_iff)

lemma exactResults_hits:
  assumes "exactResults cfg rt sv originalQuery sourceFilter = Inr hits"
  shows "\<exists>rows. hits = map (exactScore cfg rt (keyWords rt originalQuery)) rows"
proof (cases "1 \<le> length (keyWords rt originalQuery)")
  case False
  with assms have "hits = []" by (simp add: exactResults_def Let_def)
  then show ?thesis by simp
next
  case True
  with assms obtain resp where
    "Inr (case resp_data resp of None \<Rightarrow> []
          | Some exactData \<Rightarrow> map (exactScore cfg rt (keyWords rt originalQuery)) exactData) =
       (Inr hits :: exn + DocumentMatch list)"
    by (auto simp: exactResults_def Let_def bindE_def split: sum.splits)
  then show ?thesis by (cases "resp_data resp") auto
qed

lemma exactScore_chat_similarity:
  "similarity (exactScore_chat rt doc) =
     (if str_includes (toLowerCase rt (row_content doc)) enPresence
      then fadd (dbl 0.85) (dbl 0.12) else dbl 0.85)"
  using dbl_order(3,4)
  by (simp add: exactScore_chat_def withSimilarity_def Let_def min_def)

lemma exactScore_chat_le: "similarity (exactScore_chat rt doc) \<le> dbl 0.99"
  by (simp add: exactScore_chat_def withSimilarity_def Let_def)

lemma exactScore_chat_content: "content (exactScore_chat rt doc) = row_content doc"
  by (simp add: exactScore_chat_def withSimilarity_def Let_def)

lemma exactPhraseResults_chat_hits:
  assumes "exactPhraseResults_chat rt sv originalQuery sourceFilter = Inr hits"
  shows "\<exists>rows. hits = map (exactScore_chat rt) rows"
proof (cases "2 \<le> length (keyWords_chat rt originalQuery)")
  case False
  with assms have "hits = []" by (simp add: exactPhraseResults_chat_def Let_def)
  then show ?thesis by simp
next
  case True
  with assms obtain resp where
    "Inr (case resp_data resp of None \<Rightarrow> []
          | Some exactData \<Rightarrow>
              if resp_error resp = None then map (exactScore_chat rt) exactData else []) =
       (Inr hits :: exn + DocumentMatch list)"
    by (auto simp: exactPhraseResults_chat_def Let_def bindE_def split: sum.splits)
  then show ?thesis by (cases "resp_data resp") (auto split: if_splits)
qed

text \<open>
  C4 (amended). In the fiche endpoints every hit of the lexical pass has the similarity
  base plus (matches / number of keywords) times bonus, computed in doubles (the
  quotient, the product and the sum are each rounded), where matches counts the extracted
  keywords (all of them) that occur in the lower-cased content of the hit; with base 0.75
  and bonus 0.2, or base 0.7 and bonus 0.25, it lies between the base and 0.95 (the
  doubles of these literals), below 1. In the chat endpoint every hit of the lexical pass
  has the similarity 0.85, or the sum of 0.85 and 0.12, which is the double of 0.97, when
  its lower-cased content contains \<open>en presence\<close> (with its e-acute), and at most the
  ceiling 0.99, below 1: this bonus does not depend on the keywords. All of this holds
  for every case conversion of the runtime. On a runtime that converts the Latin-1
  alphabet as Unicode does, the hit of the second fiche endpoint that has four keywords
  out of five is scored \<open>0.7 + (4 / 5) * 0.25\<close>, which in doubles is below the literal 0.9.
\<close>

theorem lexical_score:
  "(exactResults cfg rt sv originalQuery sourceFilter = Inr hits \<longrightarrow>
      list_all (\<lambda>h. similarity h =
        fadd (baseScore cfg)
          (fmul (fdiv (real (length (filter (\<lambda>k. str_includes (toLowerCase rt (content h)) k)
                         (keyWords rt originalQuery))))
                   (real (length (keyWords rt originalQuery))))
             (bonusScore cfg))) hits) \<and>
   (exactResults config_search rt sv originalQuery sourceFilter = Inr hits \<longrightarrow>
      list_all (\<lambda>h. dbl 0.75 \<le> similarity h \<and> similarity h \<le> dbl 0.95 \<and> similarity h < 1)
        hits) \<and>
   (exactResults config_fiches rt sv originalQuery sourceFilter = Inr hits \<longrightarrow>
      list_all (\<lambda>h. dbl 0.7 \<le> similarity h \<and> similarity h \<le> dbl 0.95 \<and> similarity h < 1)
        hits) \<and>
   (exactPhraseResults_chat rt sv originalQuery sourceFilter = Inr hits \<longrightarrow>
      list_all (\<lambda>h. similarity h =
        (if str_includes (toLowerCase rt (content h)) enPresence
         then fadd (dbl 0.85) (dbl 0.12) else dbl 0.85) \<and>
        similarity h \<le> dbl 0.99 \<and> similarity h < 1) hits) \<and>
   fadd (dbl 0.85) (dbl 0.12) = dbl 0.97 \<and>
   (latin1Case rt' \<longrightarrow>
      exactResults config_fiches rt' services_garrot queryGarrot None =
        Inr [withSimilarity rowGarrot (fadd (dbl 0.7) (fmul (fdiv 4 5) (dbl 0.25)))] \<and>
      fadd (dbl 0.7) (fmul (fdiv 4 5) (dbl 0.25)) < dbl 0.9)"
proof (intro conjI impI)
  assume "exactResults cfg rt sv originalQuery sourceFilter = Inr hits"
  then obtain rows where "hits = map (exactScore cfg rt (keyWords rt originalQuery)) rows"
    by (blast dest: exactResults_hits)
  then show "list_all (\<lambda>h. similarity h =
        fadd (baseScore cfg)
          (fmul (fdiv (real (length (filter (\<lambda>k. str_includes (toLowerCase rt (content h)) k)
                         (keyWords rt originalQuery))))
                   (real (length (keyWords rt originalQuery))))
             (bonusScore cfg))) hits"
    by (simp add: list_all_iff exactScore_similarity exactScore_content)
next
  assume "exactResults config_search rt sv originalQuery sourceFilter = Inr hits"
  then obtain rows where
    h: "hits = map (exactScore config_search rt (keyWords rt originalQuery)) rows"
    by (blast dest: exactResults_hits)
  show "list_all (\<lambda>h. dbl 0.75 \<le> similarity h \<and> similarity h \<le> dbl 0.95 \<and>
      similarity h < 1) hits"
    unfolding h
  proof (rule list_all_map_intro)
    fix r
    show "dbl 0.75 \<le> similarity (exactScore config_search rt (keyWords rt originalQuery) r) \<and>
        similarity (exactScore config_search rt (keyWords rt originalQuery) r) \<le> dbl 0.95 \<and>
        similarity (exactScore config_search rt (keyWords rt originalQuery) r) < 1"
      using exactScore_bounds_search [of rt "keyWords rt originalQuery" r] dbl_order(8) by simp
  qed
next
  assume "exactResults config_fiches rt sv originalQuery sourceFilter = Inr hits"
  then obtain rows where
    h: "hits = map (exactScore config_fiches rt (keyWords rt originalQuery)) rows"
    by (blast dest: exactResults_hits)
  show "list_all (\<lambda>h. dbl 0.7 \<le> similarity h \<and> similarity h \<le> dbl 0.95 \<and>
      similarity h < 1) hits"
    unfolding h
  proof (rule list_all_map_intro)
    fix r
    show "dbl 0.7 \<le> similarity (exactScore config_fiches rt (keyWords rt originalQuery) r) \<and>
        similarity (exactScore config_fiches rt (keyWords rt originalQuery) r) \<le> dbl 0.95 \<and>
        similarity (exactScore config_fiches rt (keyWords rt originalQuery) r) < 1"
      using exactScore_bounds_fiches [of rt "keyWords rt originalQuery" r] dbl_order(8) by simp
  qed
next
  assume "exactPhraseResults_chat rt sv originalQuery sourceFilter = Inr hits"
  then obtain rows where h: "hits = map (exactScore_chat rt) rows"
    by (blast dest: exactPhraseResults_chat_hits)
  show "list_all (\<lambda>h. similarity h =
        (if str_includes (toLowerCase rt (content h)) enPresence
         then fadd (dbl 0.85) (dbl 0.12) else dbl 0.85) \<and>
        similarity h \<le> dbl 0.99 \<and> similarity h < 1) hits"
    unfolding h
  proof (rule list_all_map_intro)
    fix r
    show "similarity (exactScore_chat rt r) =
        (if str_includes (toLowerCase rt (content (exactScore_chat rt r))) enPresence
         then fadd (dbl 0.85) (dbl 0.12) else dbl 0.85) \<and>
        similarity (exactScore_chat rt r) \<le> dbl 0.99 \<and>
        similarity (exactScore_chat rt r) < 1"
      using exactScore_chat_similarity [of rt r] exactScore_chat_le [of rt r] dbl_order(6)
      by (simp add: exactScore_chat_content)
  qed
next
  show "fadd (dbl 0.85) (dbl 0.12) = dbl 0.97" by (rule dbl_scores(3))
next
  assume l: "latin1Case rt'"
  show "exactResults config_fiches rt' services_garrot queryGarrot None =
      Inr [withSimilarity rowGarrot (fadd (dbl 0.7) (fmul (fdiv 4 5) (dbl 0.25)))]"
    by (rule garrot_passes(2) [OF l])
  show "fadd (dbl 0.7) (fmul (fdiv 4 5) (dbl 0.25)) < dbl 0.9"
    by (rule dbl_examples(5))
qed

lemma exactScore_rowHemorragie:
  assumes "latin1Case rt"
  shows "exactScore config_search rt (keyWords rt queryHemorragie) rowHemorragie =
      docHemorragie\<lparr>similarity := dbl 0.95\<rparr>"
proof -
  have m: "length (filter (\<lambda>k. str_includes (map lowerUnit (row_content rowHemorragie)) k)
      [str ''h'' @ [233] @ str ''morragie'', str ''externe'']) = 2"
    by (simp add: rowHemorragie_def str_def lowerUnit_def circled1_def)
  have c: "baseScore config_search = dbl 0.75" "bonusScore config_search = dbl 0.2"
    by (simp_all add: config_search_def)
  have "exactScore config_search rt (keyWords rt queryHemorragie) rowHemorragie =
      withSimilarity rowHemorragie (fadd (dbl 0.75) (fmul (fdiv 2 2) (dbl 0.2)))"
    unfolding exactScore_def Let_def keyWords_queryHemorragie [OF assms]
      latin1Case_lower [OF assms plain_rowHemorragie] m c
    by simp
  also have "\<dots> = withSimilarity rowHemorragie (dbl 0.95)"
    by (simp only: dbl_scores(4))
  also have "\<dots> = docHemorragie\<lparr>similarity := dbl 0.95\<rparr>"
    by (simp add: withSimilarity_def rowHemorragie_def docHemorragie_def)
  finally show ?thesis .
qed

lemma scenario_exact_gated:
  assumes "latin1Case rt"
  shows "exactResults config_search rt services_scenario queryHemorragie None =
     Inr [docHemorragie\<lparr>similarity := dbl 0.95\<rparr>]"
proof -
  have n: "1 \<le> length (keyWords rt queryHemorragie)"
    by (simp add: keyWords_queryHemorragie [OF assms])
  then show ?thesis
    by (simp add: exactResults_def Let_def bindE_def services_scenario_def truthy_def
        exactScore_rowHemorragie [OF assms])
qed

theorem lexical_score_witness:
  "exactResults config_search runtimeLatin1 services_scenario queryHemorragie None =
     Inr [docHemorragie\<lparr>similarity := dbl 0.95\<rparr>] \<and>
   list_all (\<lambda>h. dbl 0.75 \<le> similarity h \<and> similarity h \<le> dbl 0.95 \<and> similarity h < 1)
     [docHemorragie\<lparr>similarity := dbl 0.95\<rparr>] \<and>
   exactPhraseResults_chat runtimeLatin1 services_scenario queryHemorragie None =
     Inr [docHemorragie] \<and>
   list_all (\<lambda>h. similarity h =
        (if str_includes (toLowerCase runtimeLatin1 (content h)) enPresence
         then fadd (dbl 0.85) (dbl 0.12) else dbl 0.85) \<and>
        similarity h \<le> dbl 0.99 \<and> similarity h < 1) [docHemorragie] \<and>
   exactResults config_fiches runtimeLatin1 services_garrot queryGarrot None =
     Inr [withSimilarity rowGarrot (fadd (dbl 0.7) (fmul (fdiv 4 5) (dbl 0.25)))] \<and>
   list_all (\<lambda>h. similarity h =
        fadd (baseScore config_fiches)
          (fmul (fdiv (real (length (filter (\<lambda>k. str_includes
                         (toLowerCase runtimeLatin1 (content h)) k)
                         (keyWords runtimeLatin1 queryGarrot))))
                   (real (length (keyWords runtimeLatin1 queryGarrot))))
             (bonusScore config_fiches)))
     [withSimilarity rowGarrot (fadd (dbl 0.7) (fmul (fdiv 4 5) (dbl 0.25)))] \<and>
   list_all (\<lambda>h. dbl 0.7 \<le> similarity h \<and> similarity h \<le> dbl 0.95 \<and> similarity h < 1)
     [withSimilarity rowGarrot (fadd (dbl 0.7) (fmul (fdiv 4 5) (dbl 0.25)))]"
proof -
  note l = runtimeLatin1_latin1Case
  note t = lexical_score [where cfg = config_search and rt = runtimeLatin1
      and sv = services_scenario and originalQuery = queryHemorragie and sourceFilter = None
      and hits = "[docHemorragie\<lparr>similarity := dbl 0.95\<rparr>]"]
  note u = lexical_score [where cfg = config_search and rt = runtimeLatin1
      and sv = services_scenario and originalQuery = queryHemorragie and sourceFilter = None
      and hits = "[docHemorragie]"]
  note w = lexical_score [where cfg = config_fiches and rt = runtimeLatin1
      and sv = services_garrot and originalQuery = queryGarrot and sourceFilter = None
      and hits = "[withSimilarity rowGarrot (fadd (dbl 0.7) (fmul (fdiv 4 5) (dbl 0.25)))]"
      and rt' = runtimeLatin1]
  note x = garrot_passes(2) [OF l]
  from w x
  have 3: "list_all (\<lambda>h. similarity h =
        fadd (baseScore config_fiches)
          (fmul (fdiv (real (length (filter (\<lambda>k. str_includes
                         (toLowerCase runtimeLatin1 (content h)) k)
                         (keyWords runtimeLatin1 queryGarrot))))
                   (real (length (keyWords runtimeLatin1 queryGarrot))))
             (bonusScore config_fiches)))
     [withSimilarity rowGarrot (fadd (dbl 0.7) (fmul (fdiv 4 5) (dbl 0.25)))]"
    by blast
  from w x
  have 4: "list_all (\<lambda>h. dbl 0.7 \<le> similarity h \<and> similarity h \<le> dbl 0.95 \<and>
      similarity h < 1)
     [withSimilarity rowGarrot (fadd (dbl 0.7) (fmul (fdiv 4 5) (dbl 0.25)))]"
    by blast
  from t scenario_exact_gated [OF l]
  have 1: "list_all (\<lambda>h. dbl 0.75 \<le> similarity h \<and> similarity h \<le> dbl 0.95 \<and> similarity h < 1)
     [docHemorragie\<lparr>similarity := dbl 0.95\<rparr>]"
    by blast
  from u scenario_exact [OF l]
  have 2: "list_all (\<lambda>h. similarity h =
        (if str_includes (toLowerCase runtimeLatin1 (content h)) enPresence
         then fadd (dbl 0.85) (dbl 0.12) else dbl 0.85) \<and>
        similarity h \<le> dbl 0.99 \<and> similarity h < 1) [docHemorragie]"
    by blast
  from scenario_exact_gated [OF l] 1 scenario_exact [OF l] 2 x 3 4 show ?thesis
    by (intro conjI)
qed

lemma exactScore_chat_rowProtocole:
  assumes "latin1Case rt"
  shows "exactScore_chat rt rowProtocole = withSimilarity rowProtocole (dbl 0.97)"
proof -
  have i: "str_includes (map lowerUnit (row_content rowProtocole)) enPresence"
    by (simp add: rowProtocole_def enPresence_def str_def lowerUnit_def)
  have m: "min (fadd (dbl 0.85) (dbl 0.12)) (dbl 0.99) = dbl 0.97"
    using dbl_order(4) unfolding dbl_scores(3) by simp
  show ?thesis
    unfolding exactScore_chat_def Let_def latin1Case_lower [OF assms plain_rowProtocole]
    by (simp only: i if_True m)
qed

text \<open>
  In the chat endpoint two hits of one lexical pass contain the same number of the
  query's keywords, both of them, and have the similarities 0.85 and 0.97.
\<close>

theorem lexical_score_counterexample:
  "exactPhraseResults_chat runtimeLatin1 services_protocole queryHemorragie None =
     Inr [withSimilarity rowHemorragie (dbl 0.85), withSimilarity rowProtocole (dbl 0.97)] \<and>
   keyWords_chat runtimeLatin1 queryHemorragie =
     [str ''h'' @ [233] @ str ''morragie'', str ''externe''] \<and>
   length (filter (\<lambda>k. str_includes (toLowerCase runtimeLatin1 (row_content rowHemorragie)) k)
     (keyWords_chat runtimeLatin1 queryHemorragie)) = 2 \<and>
   length (filter (\<lambda>k. str_includes (toLowerCase runtimeLatin1 (row_content rowProtocole)) k)
     (keyWords_chat runtimeLatin1 queryHemorragie)) = 2 \<and>
   dbl 0.85 < dbl 0.97"
proof -
  note l = runtimeLatin1_latin1Case
  note k = keyWords_chat_queryHemorragie [OF l]
  have d: "docHemorragie = withSimilarity rowHemorragie (dbl 0.85)"
    by (simp add: withSimilarity_def rowHemorragie_def docHemorragie_def)
  have 1: "exactPhraseResults_chat runtimeLatin1 services_protocole queryHemorragie None =
     Inr [withSimilarity rowHemorragie (dbl 0.85), withSimilarity rowProtocole (dbl 0.97)]"
    unfolding d [symmetric]
    by (simp add: exactPhraseResults_chat_def k bindE_def services_protocole_def truthy_def
        exactScore_chat_rowHemorragie [OF l] exactScore_chat_rowProtocole [OF l])
  have 2: "length (filter (\<lambda>k. str_includes (toLowerCase runtimeLatin1 (row_content rowHemorragie)) k)
     (keyWords_chat runtimeLatin1 queryHemorragie)) = 2"
    unfolding k latin1Case_lower [OF l plain_rowHemorragie]
    by (simp add: rowHemorragie_def str_def lowerUnit_def circled1_def)
  have 3: "length (filter (\<lambda>k. str_includes (toLowerCase runtimeLatin1 (row_content rowProtocole)) k)
     (keyWords_chat runtimeLatin1 queryHemorragie)) = 2"
    unfolding k latin1Case_lower [OF l plain_rowProtocole]
    by (simp add: rowProtocole_def str_def lowerUnit_def)
  have 4: "dbl 0.85 < dbl 0.97"
    using dbl_order(5) unfolding dbl_scores(3) .
  from 1 k 2 3 4 show ?thesis by (intro conjI)
qed

section \<open>Failures of the collaborators\<close>

lemma searchDocuments_chat_total:
  "(\<exists>r. searchBody_chat rt sv query originalQuery sourceFilter = Inr r \<and>
        searchDocuments_chat rt sv query originalQuery sourceFilter = r) \<or>
   (\<exists>err. searchBody_chat rt sv query originalQuery sourceFilter = Inl err \<and>
        searchDocuments_chat rt sv query originalQuery sourceFilter = [])"
  by (cases "searchBody_chat rt sv query originalQuery sourceFilter")
     (simp_all add: searchDocuments_chat_def)

lemma vectorResults_storeError:
  "generateEmbedding sv query = Inr emb \<Longrightarrow>
   match_documents sv emb t n = Inr (Response None msg) \<Longrightarrow>
   vectorResults sv t n query = Inr []"
  by (simp add: vectorResults_def bindE_def)

lemma vectorResults_embeddingError:
  "generateEmbedding sv query = Inl err \<Longrightarrow> vectorResults sv t n query = Inl err"
  by (simp add: vectorResults_def bindE_def)

lemma searchDocuments_chat_embeddingError:
  assumes "generateEmbedding sv query = Inl err"
  shows "searchDocuments_chat rt sv query originalQuery sourceFilter = []"
  unfolding searchDocuments_chat_def searchBody_chat_def
    vectorResults_embeddingError [OF assms]
  by (simp add: bindE_def)

text \<open>
  C7 (amended). When the reformulation call throws, the question itself is the query.
  When the store answers the vector query with an error and no rows, the search goes on
  with the results of the two lexical passes alone. When any call of the search throws,
  the call that computes the embedding of the vector pass included, the search returns
  the empty sequence; so it does when no pass returns a record. This holds for every
  case conversion of the runtime.
\<close>

theorem retrieval_failures:
  "(messages_create sv question = Inl e \<longrightarrow> reformulateQuery sv question = question) \<and>
   (generateEmbedding sv query = Inr emb \<and>
    match_documents sv emb (dbl 0.15) 15 = Inr (Response None (Some msg)) \<and>
    exactPhraseResults_chat rt sv originalQuery sourceFilter = Inr exactRes \<and>
    textResults_chat rt sv query originalQuery sourceFilter = Inr textRes \<longrightarrow>
      searchDocuments_chat rt sv query originalQuery sourceFilter =
        finish_chat rt sourceFilter (exactRes @ textRes)) \<and>
   (searchBody_chat rt sv query originalQuery sourceFilter = Inl err \<longrightarrow>
      searchDocuments_chat rt sv query originalQuery sourceFilter = []) \<and>
   (generateEmbedding sv query = Inl err \<longrightarrow>
      searchDocuments_chat rt sv query originalQuery sourceFilter = []) \<and>
   (vectorResults sv (dbl 0.15) 15 query = Inr [] \<and>
    exactPhraseResults_chat rt sv originalQuery sourceFilter = Inr [] \<and>
    textResults_chat rt sv query originalQuery sourceFilter = Inr [] \<longrightarrow>
      searchDocuments_chat rt sv query originalQuery sourceFilter = [])"
proof (intro conjI impI)
  assume "messages_create sv question = Inl e"
  then show "reformulateQuery sv question = question"
    by (simp add: reformulateQuery_def)
next
  assume a: "generateEmbedding sv query = Inr emb \<and>
    match_documents sv emb (dbl 0.15) 15 = Inr (Response None (Some msg)) \<and>
    exactPhraseResults_chat rt sv originalQuery sourceFilter = Inr exactRes \<and>
    textResults_chat rt sv query originalQuery sourceFilter = Inr textRes"
  then have v: "vectorResults sv (dbl 0.15) 15 query = Inr []"
    by (blast intro: vectorResults_storeError)
  from a have "searchDocuments_chat rt sv query originalQuery sourceFilter =
        finish_chat rt sourceFilter (exactRes @ [] @ textRes)"
    by (blast intro: searchDocuments_chat_eq [OF v])
  then show "searchDocuments_chat rt sv query originalQuery sourceFilter =
        finish_chat rt sourceFilter (exactRes @ textRes)"
    by simp
next
  assume "searchBody_chat rt sv query originalQuery sourceFilter = Inl err"
  then show "searchDocuments_chat rt sv query originalQuery sourceFilter = []"
    by (simp add: searchDocuments_chat_def)
next
  assume "generateEmbedding sv query = Inl err"
  then show "searchDocuments_chat rt sv query originalQuery sourceFilter = []"
    by (rule searchDocuments_chat_embeddingError)
next
  assume a: "vectorResults sv (dbl 0.15) 15 query = Inr [] \<and>
    exactPhraseResults_chat rt sv originalQuery sourceFilter = Inr [] \<and>
    textResults_chat rt sv query originalQuery sourceFilter = Inr []"
  then have "searchDocuments_chat rt sv query originalQuery sourceFilter =
        finish_chat rt sourceFilter ([] @ [] @ [])"
    by (blast intro: searchDocuments_chat_eq)
  then show "searchDocuments_chat rt sv query originalQuery sourceFilter = []"
    by (simp add: finish_chat_def filterBySource_def sortBySimilarity_def split: option.splits)
qed

lemma storeError_exact:
  assumes "latin1Case rt"
  shows "exactPhraseResults_chat rt services_storeError queryHemorragie None =
     Inr [docHemorragie]"
  by (simp add: exactPhraseResults_chat_def keyWords_chat_queryHemorragie [OF assms] bindE_def
      services_storeError_def services_scenario_def truthy_def
      exactScore_chat_rowHemorragie [OF assms])

lemma storeError_text:
  assumes "latin1Case rt"
  shows "textResults_chat rt services_storeError queryHemorragie queryHemorragie None = Inr []"
  by (simp add: textResults_chat_def allKeywordsOf_queryHemorragie [OF assms] bindE_def
      services_storeError_def services_scenario_def truthy_def str_def)

lemma embeddingDown_exact:
  assumes "latin1Case rt"
  shows "exactPhraseResults_chat rt services_embeddingDown queryHemorragie None =
     Inr [docHemorragie]"
  by (simp add: exactPhraseResults_chat_def keyWords_chat_queryHemorragie [OF assms] bindE_def
      services_embeddingDown_def services_scenario_def truthy_def
      exactScore_chat_rowHemorragie [OF assms])

lemma embeddingDown_text:
  assumes "latin1Case rt"
  shows "textResults_chat rt services_embeddingDown queryHemorragie queryHemorragie None =
     Inr []"
  by (simp add: textResults_chat_def allKeywordsOf_queryHemorragie [OF assms] bindE_def
      services_embeddingDown_def services_scenario_def truthy_def str_def)

lemma finish_chat_docHemorragie: "finish_chat rt None [docHemorragie] = [docHemorragie]"
  by (simp add: finish_chat_def filterBySource_def truthy_def sortBySimilarity_def)

theorem retrieval_failures_witness:
  "messages_create services_scenario queryHemorragie = Inl (Thrown (str ''overloaded'')) \<and>
   reformulateQuery services_scenario queryHemorragie = queryHemorragie \<and>
   generateEmbedding services_storeError queryHemorragie = Inr [dbl 0.1, dbl 0.2] \<and>
   match_documents services_storeError [dbl 0.1, dbl 0.2] (dbl 0.15) 15 =
     Inr (Response None (Some (str ''function match_documents failed''))) \<and>
   searchDocuments_chat runtimeLatin1 services_storeError queryHemorragie queryHemorragie None =
     [docHemorragie] \<and>
   generateEmbedding services_embeddingDown queryHemorragie =
     Inl (Thrown (str ''Hugging Face API error'')) \<and>
   searchDocuments_chat runtimeLatin1 services_embeddingDown queryHemorragie queryHemorragie
     None = []"
proof -
  note l = runtimeLatin1_latin1Case
  have m: "messages_create services_scenario queryHemorragie = Inl (Thrown (str ''overloaded''))"
    by (simp add: services_scenario_def)
  have g: "generateEmbedding services_storeError queryHemorragie = Inr [dbl 0.1, dbl 0.2]"
    by (simp add: services_storeError_def services_scenario_def)
  have d: "match_documents services_storeError [dbl 0.1, dbl 0.2] (dbl 0.15) 15 =
     Inr (Response None (Some (str ''function match_documents failed'')))"
    by (simp add: services_storeError_def)
  have x: "generateEmbedding services_embeddingDown queryHemorragie =
     Inl (Thrown (str ''Hugging Face API error''))"
    by (simp add: services_embeddingDown_def)
  from retrieval_failures [where sv = services_scenario and question = queryHemorragie
      and e = "Thrown (str ''overloaded'')"] m
  have 1: "reformulateQuery services_scenario queryHemorragie = queryHemorragie"
    by blast
  from retrieval_failures [where sv = services_storeError and query = queryHemorragie
      and rt = runtimeLatin1
      and emb = "[dbl 0.1, dbl 0.2]" and msg = "str ''function match_documents failed''"
      and originalQuery = queryHemorragie and sourceFilter = None
      and exactRes = "[docHemorragie]" and textRes = "[]"]
    g d storeError_exact [OF l] storeError_text [OF l]
  have "searchDocuments_chat runtimeLatin1 services_storeError queryHemorragie queryHemorragie
      None = finish_chat runtimeLatin1 None ([docHemorragie] @ [])"
    by blast
  then have 2: "searchDocuments_chat runtimeLatin1 services_storeError queryHemorragie
      queryHemorragie None = [docHemorragie]"
    by (simp add: finish_chat_docHemorragie)
  from retrieval_failures [where sv = services_embeddingDown and query = queryHemorragie
      and rt = runtimeLatin1
      and originalQuery = queryHemorragie and sourceFilter = None
      and err = "Thrown (str ''Hugging Face API error'')"] x
  have 3: "searchDocuments_chat runtimeLatin1 services_embeddingDown queryHemorragie
      queryHemorragie None = []"
    by blast
  from m 1 g d 2 x 3 show ?thesis by (intro conjI)
qed

text \<open>
  The vector pass fails in its first step, the embedding; the lexical pass alone would
  return the record 7; the search returns nothing.
\<close>

theorem retrieval_failures_counterexample:
  "generateEmbedding services_embeddingDown queryHemorragie =
     Inl (Thrown (str ''Hugging Face API error'')) \<and>
   exactPhraseResults_chat runtimeLatin1 services_embeddingDown queryHemorragie None =
     Inr [docHemorragie] \<and>
   textResults_chat runtimeLatin1 services_embeddingDown queryHemorragie queryHemorragie None =
     Inr [] \<and>
   finish_chat runtimeLatin1 None ([docHemorragie] @ []) = [docHemorragie] \<and>
   searchDocuments_chat runtimeLatin1 services_embeddingDown queryHemorragie queryHemorragie
     None = []"
proof -
  note l = runtimeLatin1_latin1Case
  have x: "generateEmbedding services_embeddingDown queryHemorragie =
     Inl (Thrown (str ''Hugging Face API error''))"
    by (simp add: services_embeddingDown_def)
  then have 5: "searchDocuments_chat runtimeLatin1 services_embeddingDown queryHemorragie
      queryHemorragie None = []"
    by (rule searchDocuments_chat_embeddingError)
  have 4: "finish_chat runtimeLatin1 None ([docHemorragie] @ []) = [docHemorragie]"
    by (simp add: finish_chat_docHemorragie)
  from x embeddingDown_exact [OF l] embeddingDown_text [OF l] 4 5 show ?thesis by (intro conjI)
qed

section \<open>The structural parser: fiches\<close>

lemma twoFiches_clean: "cleanPSEText twoFiches = twoFiches"
  by (simp add: cleanPSEText_def twoFiches_def str_def circled1_def trim_def isWhiteSpace_def)

lemma twoFiches_headers: "findHeaders 0 twoFiches = [(0, groups08), (56, groups09)]"
  by (simp add: twoFiches_def str_def circled1_def headerAt_def isDigit_def isWhiteSpace_def
      groups08_def groups09_def Let_def)

lemma twoFiches_spans:
  "slice twoFiches 0 56 = span08 \<and> slice twoFiches 56 (length twoFiches) = span09"
  by (simp add: twoFiches_def span08_def span09_def slice_def str_def)

lemma level08: "detectPSELevel (slice (trim span08) 0 200) = Some 1"
  by (simp add: span08_def str_def circled1_def trim_def isWhiteSpace_def slice_def
      detectPSELevel_def levelAt_def canonUnit_def)

lemma level09: "detectPSELevel (slice (trim span09) 0 200) = Some 1"
  by (simp add: span09_def str_def circled1_def trim_def isWhiteSpace_def slice_def
      detectPSELevel_def levelAt_def canonUnit_def)

lemma twoFiches_split:
  "splitIntoPSEFiches twoFiches = [makeFiche groups08 span08, makeFiche groups09 span09]"
  by (simp add: splitIntoPSEFiches_def twoFiches_clean twoFiches_headers twoFiches_spans)

lemma makeFiche_fields:
  "chapterCode (makeFiche g sp) = g_chapter g \<and> ficheType (makeFiche g sp) = g_ficheType g \<and>
   ficheRef (makeFiche g sp) = g_chapter g @ g_ficheType g @ g_ficheNumber g \<and>
   updateDate (makeFiche g sp) = g_month g @ [45] @ g_year g \<and>
   pseLevel (makeFiche g sp) = detectPSELevel (slice (trim sp) 0 200) \<and>
   ficheTypeName (makeFiche g sp) =
     (case FICHE_TYPES (g_ficheType g) of Some n \<Rightarrow> n | None \<Rightarrow> g_ficheType g)"
  by (simp add: makeFiche_def Let_def)

text \<open>
  C6. The text of two fiches, the header \<open>[05PR08 / 12-2022]\<close> followed by \<open>PSE\<close> with the
  circled one and the title \<open>Hemorragie externe\<close> (with its e-acute) and a body, then the
  header \<open>[05PR09 / 12-2022]\<close> followed by \<open>PSE\<close> with the circled one, the title \<open>Autre
  fiche\<close> and a body, is split into exactly two fiches: references 05PR08 and 05PR09,
  chapter 05, type PR named \<open>Procedure\<close> (with its e-acute, code unit 233), update date
  12-2022 and level 1 for both, the level being detected in the first 200 characters of
  each fiche's trimmed span.
\<close>

theorem two_fiches_scenario:
  "map ficheRef (splitIntoPSEFiches twoFiches) = [str ''05PR08'', str ''05PR09''] \<and>
   map chapterCode (splitIntoPSEFiches twoFiches) = [str ''05'', str ''05''] \<and>
   map ficheType (splitIntoPSEFiches twoFiches) = [str ''PR'', str ''PR''] \<and>
   map ficheTypeName (splitIntoPSEFiches twoFiches) =
     [str ''Proc'' @ [233] @ str ''dure'', str ''Proc'' @ [233] @ str ''dure''] \<and>
   map pseLevel (splitIntoPSEFiches twoFiches) = [Some 1, Some 1] \<and>
   map updateDate (splitIntoPSEFiches twoFiches) = [str ''12-2022'', str ''12-2022''] \<and>
   map (\<lambda>sp. detectPSELevel (slice (trim sp) 0 200)) (ficheSpans twoFiches) = [Some 1, Some 1]"
proof -
  have t: "FICHE_TYPES (str ''PR'') = Some (str ''Proc'' @ [233] @ str ''dure'')"
    by (simp add: FICHE_TYPES_def str_def)
  have s: "ficheSpans twoFiches = [span08, span09]"
    by (simp add: ficheSpans_def twoFiches_clean twoFiches_headers twoFiches_spans)
  show ?thesis
    unfolding twoFiches_split s
    by (simp add: makeFiche_fields level08 level09 groups08_def groups09_def t)
       (simp add: str_def)
qed

lemma headerAt_len:
  assumes "headerAt s = Some (len, g)"
  shows "0 < len \<and> len \<le> length s"
proof -
  define r1 where "r1 = dropWhile isWhiteSpace (drop (5 + length (takeWhile isDigit (drop 5 s))) s)"
  define r2 where "r2 = dropWhile isWhiteSpace (drop 1 r1)"
  from assms have l: "len = length s - length (drop 8 r2)" and e: "take 1 (drop 7 r2) = [93]"
    and b: "take 1 s = [91]"
    by (auto simp: headerAt_def Let_def r1_def r2_def split: if_splits)
  have "length r1 \<le> length s"
    unfolding r1_def by (rule order_trans [OF length_dropWhile_le]) simp
  moreover have "length r2 \<le> length r1"
    unfolding r2_def by (rule order_trans [OF length_dropWhile_le]) simp
  moreover from e have "8 \<le> length r2"
    by (cases "7 < length r2") (auto simp: take_Suc_conv_app_nth)
  ultimately show ?thesis using l by auto
qed

lemma findHeaders_bounds:
  "\<forall>p \<in> set (findHeaders i s). i \<le> fst p \<and> fst p < i + length s"
proof (induction i s rule: findHeaders.induct)
  case (1 i)
  then show ?case by simp
next
  case (2 i c s)
  show ?case
  proof (cases "headerAt (c # s)")
    case None
    with 2 show ?thesis by fastforce
  next
    case (Some a)
    obtain len g where a: "a = (len, g)" by (cases a)
    with Some have h: "headerAt (c # s) = Some (len, g)" by simp
    from headerAt_len [OF h] have l: "0 < len" "len \<le> Suc (length s)" by simp_all
    from 2(2) [OF Some a [symmetric]]
    have "\<forall>p \<in> set (findHeaders (i + len) (drop (len - 1) s)).
            i + len \<le> fst p \<and> fst p < i + len + length (drop (len - 1) s)" .
    with l h show ?thesis by fastforce
  qed
qed

lemma findHeaders_sorted: "sorted_wrt (<) (map fst (findHeaders i s))"
proof (induction i s rule: findHeaders.induct)
  case (1 i)
  then show ?case by simp
next
  case (2 i c s)
  show ?case
  proof (cases "headerAt (c # s)")
    case None
    with 2 show ?thesis by simp
  next
    case (Some a)
    obtain len g where a: "a = (len, g)" by (cases a)
    with Some have h: "headerAt (c # s) = Some (len, g)" by simp
    from headerAt_len [OF h] have l: "0 < len" by simp
    from 2(2) [OF Some a [symmetric]]
    have "sorted_wrt (<) (map fst (findHeaders (i + len) (drop (len - 1) s)))" .
    moreover from findHeaders_bounds [of "i + len" "drop (len - 1) s"] l
    have "\<forall>p \<in> set (findHeaders (i + len) (drop (len - 1) s)). i < fst p"
      by fastforce
    ultimately show ?thesis using h by auto
  qed
qed

lemma spansOf_length: "length (spansOf t js) = length js"
  by (induction t js rule: spansOf.induct) simp_all

lemma slice_append: "i \<le> j \<Longrightarrow> slice t i j @ drop j t = drop i t"
proof -
  assume "i \<le> j"
  then have "drop j t = drop (j - i) (drop i t)" by simp
  then show ?thesis unfolding slice_def by (metis append_take_drop_id)
qed

lemma spansOf_concat:
  "sorted_wrt (<) js \<Longrightarrow> js \<noteq> [] \<Longrightarrow> concat (spansOf t js) = drop (hd js) t"
proof (induction t js rule: spansOf.induct)
  case (1 t)
  then show ?case by simp
next
  case (2 t i)
  then show ?case by (simp add: slice_def)
next
  case (3 t i j js)
  then have "concat (spansOf t (j # js)) = drop j t" by simp
  moreover from 3 have "i \<le> j" by simp
  ultimately show ?case by (simp add: slice_append)
qed

text \<open>
  C1 (amended). The parser makes one fiche for every match of the header pattern in the
  cleaned text, the i-th fiche from the groups of the i-th match and from the i-th span,
  and the spans, concatenated in order, are the cleaned text from the offset of the first
  match to its end: consecutive spans neither overlap nor leave a gap, but the text before
  the first header is in no span. The spans are the whole cleaned text when it begins with
  a header.
\<close>

theorem fiches_partition:
  "length (splitIntoPSEFiches text) = length (findHeaders 0 (cleanPSEText text)) \<and>
   length (ficheSpans text) = length (findHeaders 0 (cleanPSEText text)) \<and>
   splitIntoPSEFiches text =
     map (\<lambda>(groups, rawSpan). makeFiche groups rawSpan)
       (zip (map snd (findHeaders 0 (cleanPSEText text))) (ficheSpans text)) \<and>
   (findHeaders 0 (cleanPSEText text) \<noteq> [] \<longrightarrow>
      concat (ficheSpans text) =
        drop (fst (hd (findHeaders 0 (cleanPSEText text)))) (cleanPSEText text)) \<and>
   (headerAt (cleanPSEText text) \<noteq> None \<longrightarrow> concat (ficheSpans text) = cleanPSEText text)"
proof (intro conjI impI)
  show "length (splitIntoPSEFiches text) = length (findHeaders 0 (cleanPSEText text))"
    by (simp add: splitIntoPSEFiches_def Let_def spansOf_length)
  show "length (ficheSpans text) = length (findHeaders 0 (cleanPSEText text))"
    by (simp add: ficheSpans_def Let_def spansOf_length)
  show "splitIntoPSEFiches text =
     map (\<lambda>(groups, rawSpan). makeFiche groups rawSpan)
       (zip (map snd (findHeaders 0 (cleanPSEText text))) (ficheSpans text))"
    by (simp add: splitIntoPSEFiches_def ficheSpans_def Let_def)
next
  assume n: "findHeaders 0 (cleanPSEText text) \<noteq> []"
  then have "concat (spansOf (cleanPSEText text) (map fst (findHeaders 0 (cleanPSEText text)))) =
      drop (hd (map fst (findHeaders 0 (cleanPSEText text)))) (cleanPSEText text)"
    by (intro spansOf_concat findHeaders_sorted) simp
  with n show "concat (ficheSpans text) =
        drop (fst (hd (findHeaders 0 (cleanPSEText text)))) (cleanPSEText text)"
    by (simp add: ficheSpans_def Let_def hd_map)
next
  assume "headerAt (cleanPSEText text) \<noteq> None"
  then obtain len g where h: "headerAt (cleanPSEText text) = Some (len, g)" by auto
  then have "cleanPSEText text \<noteq> []" by (auto simp: headerAt_def Let_def)
  then obtain c s where cs: "cleanPSEText text = c # s" by (cases "cleanPSEText text") auto
  with h have f: "findHeaders 0 (cleanPSEText text) = (0, g) # findHeaders len (drop (len - 1) s)"
    by simp
  have "concat (spansOf (cleanPSEText text) (map fst (findHeaders 0 (cleanPSEText text)))) =
      drop (hd (map fst (findHeaders 0 (cleanPSEText text)))) (cleanPSEText text)"
    by (intro spansOf_concat findHeaders_sorted) (simp add: f)
  then show "concat (ficheSpans text) = cleanPSEText text"
    by (simp add: ficheSpans_def Let_def f)
qed

lemma twoFiches_headerAt: "headerAt twoFiches = Some (18, groups08)"
  by (simp add: twoFiches_def str_def circled1_def headerAt_def isDigit_def isWhiteSpace_def
      groups08_def Let_def)

theorem fiches_partition_witness:
  "findHeaders 0 (cleanPSEText twoFiches) \<noteq> [] \<and>
   headerAt (cleanPSEText twoFiches) \<noteq> None \<and>
   length (splitIntoPSEFiches twoFiches) = 2 \<and>
   concat (ficheSpans twoFiches) = cleanPSEText twoFiches \<and>
   concat (ficheSpans twoFiches) =
     drop (fst (hd (findHeaders 0 (cleanPSEText twoFiches)))) (cleanPSEText twoFiches)"
proof -
  note t = fiches_partition [of twoFiches]
  have n: "findHeaders 0 (cleanPSEText twoFiches) \<noteq> []"
    by (simp add: twoFiches_clean twoFiches_headers)
  have h: "headerAt (cleanPSEText twoFiches) \<noteq> None"
    by (simp add: twoFiches_clean twoFiches_headerAt)
  from t have "length (splitIntoPSEFiches twoFiches) = length (findHeaders 0 (cleanPSEText twoFiches))"
    by (rule conjunct1)
  then have l: "length (splitIntoPSEFiches twoFiches) = 2"
    by (simp add: twoFiches_clean twoFiches_headers)
  from t h have c: "concat (ficheSpans twoFiches) = cleanPSEText twoFiches" by blast
  from t n have d: "concat (ficheSpans twoFiches) =
     drop (fst (hd (findHeaders 0 (cleanPSEText twoFiches)))) (cleanPSEText twoFiches)" by blast
  from n h l c d show ?thesis by (intro conjI)
qed

lemma withPreamble_clean: "cleanPSEText withPreamble = withPreamble"
  by (simp add: cleanPSEText_def withPreamble_def str_def trim_def isWhiteSpace_def)

lemma withPreamble_headers: "findHeaders 0 withPreamble = [(9, groups08)]"
  by (simp add: withPreamble_def str_def headerAt_def isDigit_def isWhiteSpace_def
      groups08_def Let_def)

text \<open>
  A text with one header after the word \<open>Sommaire\<close>: one fiche, whose span starts at the
  header, so the spans do not make up the cleaned text.
\<close>

theorem fiches_partition_counterexample:
  "length (findHeaders 0 (cleanPSEText withPreamble)) = 1 \<and>
   length (splitIntoPSEFiches withPreamble) = 1 \<and>
   cleanPSEText withPreamble = str ''Sommaire [05PR08 / 12-2022] PSE2 Garrot'' \<and>
   concat (ficheSpans withPreamble) = str ''[05PR08 / 12-2022] PSE2 Garrot'' \<and>
   concat (ficheSpans withPreamble) \<noteq> cleanPSEText withPreamble"
proof -
  have 1: "length (findHeaders 0 (cleanPSEText withPreamble)) = 1"
    by (simp add: withPreamble_clean withPreamble_headers)
  have 2: "length (splitIntoPSEFiches withPreamble) = 1"
    by (simp add: splitIntoPSEFiches_def withPreamble_clean withPreamble_headers)
  have 3: "cleanPSEText withPreamble = str ''Sommaire [05PR08 / 12-2022] PSE2 Garrot''"
    by (simp add: withPreamble_clean) (simp add: withPreamble_def str_def)
  have 4: "concat (ficheSpans withPreamble) = str ''[05PR08 / 12-2022] PSE2 Garrot''"
    by (simp add: ficheSpans_def withPreamble_clean withPreamble_headers)
       (simp add: withPreamble_def slice_def str_def)
  have 5: "concat (ficheSpans withPreamble) \<noteq> cleanPSEText withPreamble"
    unfolding 3 4 by (simp add: str_def)
  from 1 2 3 4 5 show ?thesis by (intro conjI)
qed

section \<open>The structural parser: chunks\<close>

lemma replaceCRLF_id: "13 \<notin> set t \<Longrightarrow> replaceCRLF t = t"
  by (induction t rule: replaceCRLF.induct) auto

lemma replaceRuns_id: "(\<And>c. c \<in> set t \<Longrightarrow> \<not> P c) \<Longrightarrow> replaceRuns P n rep t = t"
  by (induction t) auto

lemma dropWhile_id: "(\<And>c. c \<in> set t \<Longrightarrow> \<not> P c) \<Longrightarrow> dropWhile P t = t"
  by (cases t) auto

lemma trim_id:
  assumes "\<And>c. c \<in> set t \<Longrightarrow> \<not> isWhiteSpace c"
  shows "trim t = t"
proof -
  have 1: "dropWhile isWhiteSpace t = t" using assms by (rule dropWhile_id)
  have 2: "dropWhile isWhiteSpace (rev t) = rev t"
    by (rule dropWhile_id) (use assms in simp)
  show ?thesis by (simp add: trim_def 1 2)
qed

lemma cleanChunkText_id:
  assumes "\<And>c. c \<in> set t \<Longrightarrow> \<not> isWhiteSpace c"
  shows "cleanChunkText t = t"
proof -
  have "13 \<notin> set t" using assms [of 13] by (auto simp: isWhiteSpace_def)
  then have 1: "replaceCRLF t = t" by (rule replaceCRLF_id)
  have "\<And>c. c \<in> set t \<Longrightarrow> \<not> c = 10" using assms by (auto simp: isWhiteSpace_def)
  then have 2: "replaceRuns (\<lambda>c. c = 10) 3 [10, 10] t = t" by (rule replaceRuns_id)
  have 3: "replaceRuns isWhiteSpace 1 [32] t = t" using assms by (rule replaceRuns_id)
  show ?thesis
    unfolding cleanChunkText_def 1 2 3 using assms by (rule trim_id)
qed

lemma longSentence_plain: "c \<in> set longSentence \<Longrightarrow> \<not> isWhiteSpace c"
  by (auto simp: longSentence_def isWhiteSpace_def)

lemma longSentence_length: "length longSentence = 501"
  by (simp add: longSentence_def)

lemma longSentence_window0: "windowEnd longSentence 0 = 501"
  by (simp add: windowEnd_def CHUNK_SIZE_def lastIndexOf_def longSentence_def Let_def)

lemma longSentence_window401: "windowEnd longSentence 401 = 901"
  by (simp add: windowEnd_def CHUNK_SIZE_def longSentence_def Let_def)

lemma trim_sub: "set u \<subseteq> set longSentence \<Longrightarrow> trim u = u"
  by (rule trim_id) (auto dest: longSentence_plain)

lemma longSentence_loop:
  "chunkLoop longSentence 0 = [longSentence, drop 401 longSentence]"
proof -
  have 3: "chunkLoop longSentence 801 = []"
    by (subst chunkLoop.simps) (simp add: longSentence_length)
  have t2: "trim (slice longSentence 401 901) = drop 401 longSentence"
    using trim_sub [of "drop 401 longSentence"]
    by (simp add: slice_def longSentence_length set_drop_subset)
  have 2: "chunkLoop longSentence 401 = [drop 401 longSentence]"
    by (subst chunkLoop.simps)
       (simp add: longSentence_length longSentence_window401 t2 CHUNK_OVERLAP_def 3 Let_def)
  have t1: "trim (slice longSentence 0 501) = longSentence"
    using trim_sub [of longSentence] by (simp add: slice_def longSentence_length)
  show ?thesis
    by (subst chunkLoop.simps)
       (simp add: longSentence_length longSentence_window0 t1 CHUNK_OVERLAP_def 2 Let_def)
qed

text \<open>
  C5 at the text of 500 letters \<open>a\<close> and a full stop: the full stop stands at offset 500,
  the end of the first window, where \<open>lastIndexOf(".", end)\<close> finds it; the window then ends
  at 501 and the first chunk has 501 characters, one more than \<open>CHUNK_SIZE\<close>. The second
  window starts at 401, \<open>CHUNK_OVERLAP\<close> before the end of the first.
\<close>

theorem chunk_longer_than_CHUNK_SIZE:
  "splitIntoChunks longSentence = [longSentence, drop 401 longSentence] \<and>
   map length (splitIntoChunks longSentence) = [501, 100] \<and> CHUNK_SIZE = 500"
proof -
  have "cleanChunkText longSentence = longSentence"
    by (rule cleanChunkText_id) (rule longSentence_plain)
  then have "splitIntoChunks longSentence = [longSentence, drop 401 longSentence]"
    by (simp add: splitIntoChunks_def longSentence_loop)
  then show ?thesis
    by (simp add: longSentence_length CHUNK_SIZE_def)
qed

lemma trim_length: "length (trim s) \<le> length s"
proof -
  have "length (trim s) = length (dropWhile isWhiteSpace (rev (dropWhile isWhiteSpace s)))"
    by (simp add: trim_def)
  also have "\<dots> \<le> length (rev (dropWhile isWhiteSpace s))"
    by (rule length_dropWhile_le)
  also have "\<dots> \<le> length s" by (simp add: length_dropWhile_le)
  finally show ?thesis .
qed

text \<open>
  Every chunk the loop pushes is longer than 50 characters and has at most
  \<open>CHUNK_SIZE + 1\<close> characters.
\<close>

lemma chunkLoop_lengths:
  "\<forall>c \<in> set (chunkLoop t start). 50 < length c \<and> length c \<le> CHUNK_SIZE + 1"
proof (induction t start rule: chunkLoop.induct)
  case (1 t start)
  show ?case
  proof (cases "start < length t")
    case False
    then show ?thesis by (subst chunkLoop.simps) simp
  next
    case True
    have b: "windowEnd t start \<le> start + CHUNK_SIZE + 1"
      using windowEnd_bounds [of start t] by simp
    have "length (trim (slice t start (windowEnd t start))) \<le> length (slice t start (windowEnd t start))"
      by (rule trim_length)
    also have "\<dots> \<le> windowEnd t start - start" by (simp add: slice_def)
    also have "\<dots> \<le> CHUNK_SIZE + 1" using b by simp
    finally have l: "length (trim (slice t start (windowEnd t start))) \<le> CHUNK_SIZE + 1" .
    from 1 [OF True refl refl]
    have ih: "\<forall>c \<in> set (chunkLoop t (windowEnd t start - CHUNK_OVERLAP)).
                50 < length c \<and> length c \<le> CHUNK_SIZE + 1" .
    show ?thesis
      by (subst chunkLoop.simps) (use True l ih in \<open>auto simp: Let_def\<close>)
  qed
qed

end
